theory Spec2Isabelle
  imports Complex_Main "HOL-Library.Log_Nat"
begin

section \<open>Python values at the boundary of the prediction pipeline\<close>

text \<open>
  The embedding follows \<^verbatim>\<open>app.py\<close>: the route handler \<^verbatim>\<open>predict_route\<close> and the
  function \<^verbatim>\<open>predict_segregation\<close> it calls. Exceptions are values of \<open>py_exn\<close>; a
  computation that may raise returns \<open>py_exn + 'a\<close> with \<open>Inl\<close> for the exception.
  \<open>ArtifactError\<close> stands for whatever exception a persisted artifact raises when it is
  loaded or invoked.
\<close>

datatype py_exn =
  ValueError | TypeError | KeyError | OverflowError | ZeroDivisionError
  | AttributeError | ArtifactError

definition and_then :: "py_exn + 'a \<Rightarrow> ('a \<Rightarrow> py_exn + 'b) \<Rightarrow> py_exn + 'b" where
  "and_then r f = (case r of Inl e \<Rightarrow> Inl e | Inr v \<Rightarrow> f v)"

subsection \<open>Strings\<close>

text \<open>
  A string is a list of code points below 256. \<^verbatim>\<open>str.strip()\<close> removes the characters
  for which \<^verbatim>\<open>str.isspace\<close> holds: among these code points, 9 to 13, 28 to 32, 133
  and 160.
\<close>

definition is_space :: "char \<Rightarrow> bool" where
  "is_space c = (let n = (of_char c :: nat) in
     (9 \<le> n \<and> n \<le> 13) \<or> (28 \<le> n \<and> n \<le> 32) \<or> n = 133 \<or> n = 160)"

definition py_strip :: "string \<Rightarrow> string" where
  "py_strip s = rev (dropWhile is_space (rev (dropWhile is_space s)))"

text \<open>
  \<^verbatim>\<open>int(s)\<close> skips less at both ends: the white space of C (the codes 9 to 13 and
  32) and the two white-space code points above 127, which it reads as blanks. The
  codes 28 to 31 are not skipped (\<^verbatim>\<open>int('\x1c3')\<close> raises \<^verbatim>\<open>ValueError\<close>).
\<close>

definition is_c_space :: "char \<Rightarrow> bool" where
  "is_c_space c = (let n = (of_char c :: nat) in
     (9 \<le> n \<and> n \<le> 13) \<or> n = 32 \<or> n = 133 \<or> n = 160)"

definition c_strip :: "string \<Rightarrow> string" where
  "c_strip s = rev (dropWhile is_c_space (rev (dropWhile is_c_space s)))"

definition is_digit :: "char \<Rightarrow> bool" where
  "is_digit c = (let n = (of_char c :: nat) in 48 \<le> n \<and> n \<le> 57)"

definition digit_val :: "char \<Rightarrow> nat" where
  "digit_val c = (of_char c :: nat) - 48"

text \<open>
  The digits of \<^verbatim>\<open>int(s)\<close> in base 10: decimal digits, with single underscores allowed
  between two digits. \<open>need\<close> says that a digit has to come next.
\<close>

fun dec_digits :: "bool \<Rightarrow> nat \<Rightarrow> string \<Rightarrow> nat option" where
  "dec_digits need acc [] = (if need then None else Some acc)"
| "dec_digits need acc (c # cs) =
     (if is_digit c then dec_digits False (acc * 10 + digit_val c) cs
      else if c = CHR ''_'' \<and> \<not> need then dec_digits True acc cs
      else None)"

text \<open>
  \<^verbatim>\<open>int(s)\<close>: an optional sign, then the digits. More than 4300 digits (the default
  of \<^verbatim>\<open>sys.set_int_max_str_digits\<close>) are refused with \<^verbatim>\<open>ValueError\<close>, as is
  everything that is not a decimal literal.
\<close>

definition int_of_str :: "string \<Rightarrow> py_exn + int" where
  "int_of_str s =
     (let t = c_strip s;
          neg = (case t of [] \<Rightarrow> False | c # _ \<Rightarrow> c = CHR ''-'');
          ds = (case t of [] \<Rightarrow> [] | c # r \<Rightarrow> if c = CHR ''-'' \<or> c = CHR ''+'' then r else t)
      in if 4300 < length (filter is_digit ds) then Inl ValueError
         else case dec_digits True 0 ds of
           None \<Rightarrow> Inl ValueError
         | Some n \<Rightarrow> Inr (if neg then - int n else int n))"

function str_of_nat :: "nat \<Rightarrow> string" where
  "str_of_nat n =
     (if n < 10 then [char_of (48 + n)]
      else str_of_nat (n div 10) @ [char_of (48 + n mod 10)])"
  by pat_completeness auto
termination
  by (relation "measure id") auto

definition str_of_int :: "int \<Rightarrow> string" where
  "str_of_int i = (if i < 0 then CHR ''-'' # str_of_nat (nat (- i)) else str_of_nat (nat i))"

section \<open>Python floats\<close>

text \<open>
  A Python \<^verbatim>\<open>float\<close> is an IEEE 754 binary64 number: a finite value is kept as the
  rational it denotes (the two zeros are not told apart), next to the infinities and
  NaN. Every arithmetic operation computes the exact rational result and rounds it to
  the nearest binary64 value, ties to even (\<open>rne\<close>); a rounded magnitude of \<open>2 ^ 1024\<close>
  or more overflows.
\<close>

datatype pyfloat = Fin rat | PInf | NInf | NaN

text \<open>\<open>ilog2 x\<close> is the exponent \<open>e\<close> with \<open>2 ^ e \<le> x < 2 ^ (e + 1)\<close>, for \<open>0 < x\<close>.\<close>

definition ilog2 :: "rat \<Rightarrow> int" where
  "ilog2 x = (case quotient_of x of (n, d) \<Rightarrow>
      (let k = bitlen n - bitlen d in if 2 powi k \<le> x then k else k - 1))"

definition round_half_even :: "rat \<Rightarrow> int" where
  "round_half_even z = (let f = \<lfloor>z\<rfloor>; r = z - of_int f in
     if r < 1 / 2 then f else if 1 / 2 < r then f + 1 else if even f then f else f + 1)"

text \<open>
  The spacing of binary64 values around \<open>x\<close> is \<open>2 ^ qexp x\<close>: 52 binary places below
  the leading bit, and \<open>2 ^ (- 1074)\<close> in the subnormal range.
\<close>

definition qexp :: "rat \<Rightarrow> int" where
  "qexp x = max (ilog2 \<bar>x\<bar> - 52) (- 1074)"

definition rne :: "rat \<Rightarrow> rat" where
  "rne x = (if x = 0 then 0 else
     (let q = 2 powi qexp x
      in sgn x * of_int (round_half_even (\<bar>x\<bar> / q)) * q))"

definition rnd64 :: "rat \<Rightarrow> pyfloat" where
  "rnd64 x = (let y = rne x in
     if 2 ^ 1024 \<le> y then PInf else if y \<le> - (2 ^ 1024) then NInf else Fin y)"

text \<open>\<^verbatim>\<open>float(n)\<close> for an \<^verbatim>\<open>int\<close>: correctly rounded, \<^verbatim>\<open>OverflowError\<close> beyond the range.\<close>

definition float_of_int :: "int \<Rightarrow> py_exn + pyfloat" where
  "float_of_int n = (case rnd64 (of_int n) of Fin r \<Rightarrow> Inr (Fin r) | _ \<Rightarrow> Inl OverflowError)"

text \<open>\<^verbatim>\<open>x * y\<close> on floats\<close>

fun fmul :: "pyfloat \<Rightarrow> pyfloat \<Rightarrow> pyfloat" where
  "fmul (Fin a) (Fin b) = rnd64 (a * b)"
| "fmul NaN _ = NaN"
| "fmul _ NaN = NaN"
| "fmul (Fin a) PInf = (if a = 0 then NaN else if 0 < a then PInf else NInf)"
| "fmul (Fin a) NInf = (if a = 0 then NaN else if 0 < a then NInf else PInf)"
| "fmul PInf (Fin b) = (if b = 0 then NaN else if 0 < b then PInf else NInf)"
| "fmul NInf (Fin b) = (if b = 0 then NaN else if 0 < b then NInf else PInf)"
| "fmul PInf PInf = PInf"
| "fmul PInf NInf = NInf"
| "fmul NInf PInf = NInf"
| "fmul NInf NInf = PInf"

text \<open>\<^verbatim>\<open>x / y\<close> on floats: a zero divisor raises.\<close>

fun fdiv :: "pyfloat \<Rightarrow> pyfloat \<Rightarrow> py_exn + pyfloat" where
  "fdiv x (Fin b) =
     (if b = 0 then Inl ZeroDivisionError
      else Inr (case x of
                  Fin a \<Rightarrow> rnd64 (a / b)
                | PInf \<Rightarrow> if 0 < b then PInf else NInf
                | NInf \<Rightarrow> if 0 < b then NInf else PInf
                | NaN \<Rightarrow> NaN))"
| "fdiv x NaN = Inr NaN"
| "fdiv (Fin a) _ = Inr (Fin 0)"
| "fdiv _ _ = Inr NaN"

text \<open>\<^verbatim>\<open>x / n\<close> and \<^verbatim>\<open>x * n\<close> for a float and an \<^verbatim>\<open>int\<close>: the \<^verbatim>\<open>int\<close> is converted first.\<close>

definition truediv_int :: "pyfloat \<Rightarrow> int \<Rightarrow> py_exn + pyfloat" where
  "truediv_int x n = and_then (float_of_int n) (fdiv x)"

definition mul_int :: "pyfloat \<Rightarrow> int \<Rightarrow> py_exn + pyfloat" where
  "mul_int x n = and_then (float_of_int n) (\<lambda>y. Inr (fmul x y))"

text \<open>\<^verbatim>\<open>x < y\<close> on floats: false when either side is NaN.\<close>

fun flt :: "pyfloat \<Rightarrow> pyfloat \<Rightarrow> bool" where
  "flt NaN _ = False"
| "flt _ NaN = False"
| "flt (Fin a) (Fin b) = (a < b)"
| "flt (Fin a) PInf = True"
| "flt NInf (Fin b) = True"
| "flt NInf PInf = True"
| "flt _ _ = False"

text \<open>
  \<^verbatim>\<open>min(a, b)\<close> keeps \<open>a\<close> unless \<^verbatim>\<open>b < a\<close>, and \<^verbatim>\<open>max(a, b)\<close> keeps \<open>a\<close> unless
  \<^verbatim>\<open>b > a\<close>.
\<close>

definition py_min :: "pyfloat \<Rightarrow> pyfloat \<Rightarrow> pyfloat" where
  "py_min a b = (if flt b a then b else a)"

definition py_max :: "pyfloat \<Rightarrow> pyfloat \<Rightarrow> pyfloat" where
  "py_max a b = (if flt a b then b else a)"

text \<open>\<^verbatim>\<open>int(x)\<close> on a float truncates towards zero.\<close>

fun int_of_float :: "pyfloat \<Rightarrow> py_exn + int" where
  "int_of_float (Fin r) = Inr (if 0 \<le> r then \<lfloor>r\<rfloor> else \<lceil>r\<rceil>)"
| "int_of_float NaN = Inl ValueError"
| "int_of_float _ = Inl OverflowError"

text \<open>
  \<^verbatim>\<open>round(x, 2)\<close>: the exact value of \<open>x\<close> is rounded to two decimals, ties to even, and
  the decimal is converted back to the nearest float. Infinities and NaN are returned
  as they are.
\<close>

fun py_round2 :: "pyfloat \<Rightarrow> pyfloat" where
  "py_round2 (Fin r) = rnd64 (of_int (round_half_even (r * 100)) / 100)"
| "py_round2 x = x"

text \<open>\<^verbatim>\<open>round(x)\<close>, which returns an \<^verbatim>\<open>int\<close>\<close>

fun py_round :: "pyfloat \<Rightarrow> py_exn + int" where
  "py_round (Fin r) = Inr (round_half_even r)"
| "py_round NaN = Inl ValueError"
| "py_round _ = Inl OverflowError"

section \<open>The parsed JSON body\<close>

text \<open>
  \<^verbatim>\<open>request.json\<close> is the parsed body: a JSON value as Python holds it. A value inside
  an object is \<^verbatim>\<open>None\<close>, a \<^verbatim>\<open>bool\<close>, an unbounded \<^verbatim>\<open>int\<close>, a \<^verbatim>\<open>float\<close> (a
  JSON number with a fraction or an exponent; \<^verbatim>\<open>1e999\<close>, \<^verbatim>\<open>Infinity\<close> and
  \<^verbatim>\<open>NaN\<close> are read as the infinite floats and NaN), a \<^verbatim>\<open>str\<close>, or a nested list or
  dict. The code applies \<^verbatim>\<open>str()\<close> to the zone name whatever its type; for a float
  and for a nested value that is Python's \<^verbatim>\<open>repr\<close>, which is not computed here: the
  value carries the text that \<^verbatim>\<open>str()\<close> gives for it (\<^verbatim>\<open>'5.5'\<close> for 5.5). An
  \<^verbatim>\<open>int\<close> of a parsed body has at most 4300 digits, since the parser reads it with
  \<^verbatim>\<open>int()\<close>; so \<^verbatim>\<open>str()\<close> of it does not raise. An object is the list of its
  items, with distinct keys as in a Python \<^verbatim>\<open>dict\<close>.
\<close>

datatype jval =
  JNull | JBool bool | JInt int | JFloat pyfloat string | JStr string | JNested string

datatype body =
  BNull | BBool bool | BInt int | BFloat pyfloat | BStr string
  | BArray "jval list" | BObject "(string \<times> jval) list"

text \<open>\<^verbatim>\<open>not data\<close> is the negation of this.\<close>

fun truthy :: "body \<Rightarrow> bool" where
  "truthy BNull = False"
| "truthy (BBool b) = b"
| "truthy (BInt n) = (n \<noteq> 0)"
| "truthy (BFloat f) = (f \<noteq> Fin 0)"
| "truthy (BStr s) = (s \<noteq> [])"
| "truthy (BArray xs) = (xs \<noteq> [])"
| "truthy (BObject kv) = (kv \<noteq> [])"

text \<open>\<^verbatim>\<open>data.get(key, default)\<close>\<close>

definition dict_get :: "(string \<times> jval) list \<Rightarrow> string \<Rightarrow> jval \<Rightarrow> jval" where
  "dict_get kv key dflt = (case map_of kv key of None \<Rightarrow> dflt | Some v \<Rightarrow> v)"

text \<open>
  \<^verbatim>\<open>int(v)\<close> and \<^verbatim>\<open>str(v)\<close> on a value of the object. \<^verbatim>\<open>int\<close> truncates a
  float, and raises \<^verbatim>\<open>OverflowError\<close> on an infinite one and \<^verbatim>\<open>ValueError\<close> on NaN.
\<close>

fun py_int :: "jval \<Rightarrow> py_exn + int" where
  "py_int JNull = Inl TypeError"
| "py_int (JBool b) = Inr (if b then 1 else 0)"
| "py_int (JInt n) = Inr n"
| "py_int (JFloat f s) = int_of_float f"
| "py_int (JStr s) = int_of_str s"
| "py_int (JNested s) = Inl TypeError"

fun py_str :: "jval \<Rightarrow> string" where
  "py_str JNull = ''None''"
| "py_str (JBool b) = (if b then ''True'' else ''False'')"
| "py_str (JInt n) = str_of_int n"
| "py_str (JFloat f s) = s"
| "py_str (JStr s) = s"
| "py_str (JNested s) = s"

section \<open>Artifacts\<close>

text \<open>
  The model, the zone encoder, the scaler and the column list are read from
  \<^verbatim>\<open>saved_models/\<close> at every call. They are opaque to the code: each load may raise,
  and so may each invocation. \<open>classes\<close> (the attribute \<^verbatim>\<open>classes_\<close>) and
  \<open>transform\<close> are the two members of the encoder the code uses; the scaler takes the
  one-row frame and the model the scaled row, of which the code reads the first
  prediction, taken here as a float. \<open>unique_zones\<close> is the list \<^verbatim>\<open>_unique_zones\<close>
  read from \<^verbatim>\<open>Data.csv\<close> when the module is loaded.
\<close>

datatype pynum = PInt int | PFloat pyfloat

type_synonym dataframe = "(string \<times> pynum) list"

record zone_encoder =
  classes :: "string list"
  transform :: "string \<Rightarrow> py_exn + int"

record store =
  load_model :: "py_exn + (pyfloat list \<Rightarrow> py_exn + pyfloat)"
  load_encoder :: "py_exn + zone_encoder"
  load_scaler :: "py_exn + (dataframe \<Rightarrow> py_exn + pyfloat list)"
  load_columns :: "py_exn + string list"
  unique_zones :: "string list"

section \<open>The one-row data frame\<close>

text \<open>
  A one-row \<^verbatim>\<open>DataFrame\<close> is the list of its columns, each with its value.
  \<^verbatim>\<open>for col in expected_columns: if col not in input_df.columns: input_df[col] = 0\<close>
  appends the missing columns; \<^verbatim>\<open>input_df[expected_columns]\<close> selects by name and
  raises \<^verbatim>\<open>KeyError\<close> for a name that is not a column.
\<close>

fun add_missing :: "string list \<Rightarrow> dataframe \<Rightarrow> dataframe" where
  "add_missing [] input_df = input_df"
| "add_missing (col # cols) input_df =
     add_missing cols
       (if col \<in> set (map fst input_df) then input_df else input_df @ [(col, PInt 0)])"

fun select_columns :: "dataframe \<Rightarrow> string list \<Rightarrow> py_exn + dataframe" where
  "select_columns input_df [] = Inr []"
| "select_columns input_df (col # cols) =
     (case map_of input_df col of
        None \<Rightarrow> Inl KeyError
      | Some v \<Rightarrow> and_then (select_columns input_df cols) (\<lambda>rest. Inr ((col, v) # rest)))"

section \<open>predict_segregation\<close>

text \<open>
  \<^verbatim>\<open>input_data\<close> is the dictionary the route builds; \<^verbatim>\<open>'Ward No.'\<close> is the one key
  that \<^verbatim>\<open>predict_segregation\<close> reads with a default.
\<close>

record input_data =
  Total_Households :: int
  Covered_Households :: int
  Zone_Name :: string
  Ward_No :: "int option"

text \<open>
  The inner \<^verbatim>\<open>try\<close>: the trained code of a known zone, 0 for an unknown one, and 0
  when the encoder raises.
\<close>

definition encode_zone :: "zone_encoder \<Rightarrow> string \<Rightarrow> int" where
  "encode_zone le_zone zone_name =
     (case (if zone_name \<in> set (classes le_zone) then transform le_zone zone_name else Inr 0) of
        Inr zone_id \<Rightarrow> zone_id
      | Inl e \<Rightarrow> 0)"

definition input_features :: "pyfloat \<Rightarrow> pyfloat \<Rightarrow> int \<Rightarrow> input_data \<Rightarrow> dataframe" where
  "input_features total_households covered_households zone_id inp =
     [(''Total_Households'', PFloat total_households),
      (''Covered_Households'', PFloat covered_households),
      (''Zone_ID'', PInt zone_id),
      (''Ward No.'', PInt (case Ward_No inp of None \<Rightarrow> 1 | Some w \<Rightarrow> w))]"

text \<open>The frame handed to \<^verbatim>\<open>scaler.transform\<close>.\<close>

definition build_frame :: "string list \<Rightarrow> dataframe \<Rightarrow> py_exn + dataframe" where
  "build_frame expected_columns feats =
     select_columns (add_missing expected_columns feats) expected_columns"

text \<open>The body of the outer \<^verbatim>\<open>try\<close>.\<close>

definition predict_body :: "store \<Rightarrow> input_data \<Rightarrow> py_exn + pyfloat" where
  "predict_body st inp =
     and_then (load_model st) (\<lambda>model.
     and_then (load_encoder st) (\<lambda>le_zone.
     and_then (load_scaler st) (\<lambda>scaler.
     and_then (load_columns st) (\<lambda>expected_columns.
     and_then (float_of_int (Total_Households inp)) (\<lambda>total_households.
     and_then (float_of_int (Covered_Households inp)) (\<lambda>covered_households.
     and_then (build_frame expected_columns
                 (input_features total_households covered_households
                    (encode_zone le_zone (py_strip (Zone_Name inp))) inp)) (\<lambda>input_df.
     and_then (scaler input_df) (\<lambda>input_scaled.
     and_then (model input_scaled) (\<lambda>pred.
       Inr (py_max (Fin 0) (py_min pred covered_households)))))))))))"

text \<open>The literal \<^verbatim>\<open>0.7\<close> is the float nearest to seven tenths.\<close>

definition f0_7 :: pyfloat where
  "f0_7 = rnd64 (7 / 10)"

text \<open>The \<^verbatim>\<open>except\<close> branch: 70% of the covered households.\<close>

definition fallback :: "input_data \<Rightarrow> py_exn + pyfloat" where
  "fallback inp =
     and_then (float_of_int (Covered_Households inp)) (\<lambda>c. Inr (fmul c f0_7))"

definition predict_segregation :: "store \<Rightarrow> input_data \<Rightarrow> py_exn + pyfloat" where
  "predict_segregation st inp =
     (case predict_body st inp of Inr pred \<Rightarrow> Inr pred | Inl e \<Rightarrow> fallback inp)"

section \<open>predict_route\<close>

record prediction =
  segregation_rate :: pyfloat
  predicted_households :: int
  model_used :: string

record echoed_input =
  input_total_households :: int
  input_covered_households :: int
  input_zone_name :: string

datatype response =
  Ok200 prediction echoed_input
  | Err400 string
  | Err500 string "py_exn option"

text \<open>
  The inner \<^verbatim>\<open>try\<close> of the route converts the two counts and the zone name and checks
  the ranges. It ends the request with a 400 response, or goes on with the three
  values. Its handler catches \<^verbatim>\<open>ValueError\<close> and \<^verbatim>\<open>TypeError\<close>; another exception
  reaches the handler of the whole route.
\<close>

definition conversion_failed :: "py_exn \<Rightarrow> response" where
  "conversion_failed e =
     (if e = ValueError \<or> e = TypeError then Err400 ''Invalid input data''
      else Err500 ''An unexpected error occurred'' None)"

definition get_and_validate :: "(string \<times> jval) list \<Rightarrow> response + (int \<times> int \<times> string)" where
  "get_and_validate data =
     (case py_int (dict_get data ''total_households'' (JInt 0)) of
        Inl e \<Rightarrow> Inl (conversion_failed e)
      | Inr total' \<Rightarrow>
     (case py_int (dict_get data ''covered_households'' (JInt 0)) of
        Inl e \<Rightarrow> Inl (conversion_failed e)
      | Inr covered \<Rightarrow>
     (let zone_name = py_strip (py_str (dict_get data ''zone_name'' (JStr [])))
      in if total' \<le> 0 then Inl (Err400 ''Total households must be greater than 0'')
         else if covered < 0 \<or> covered > total'
           then Inl (Err400 ''Covered households must be between 0 and total'')
         else Inr (total', covered, zone_name))))"

text \<open>"Default to first zone if not provided"\<close>

definition default_zone :: "string list \<Rightarrow> string \<Rightarrow> string" where
  "default_zone zones zone_name =
     (if zone_name = [] \<and> zones \<noteq> [] then hd zones
      else if zone_name = [] then ''Unknown''
      else zone_name)"

definition make_input_data :: "int \<Rightarrow> int \<Rightarrow> string \<Rightarrow> input_data" where
  "make_input_data total' covered zone_name =
     \<lparr>Total_Households = total', Covered_Households = covered,
      Zone_Name = zone_name, Ward_No = Some 1\<rparr>"

text \<open>\<^verbatim>\<open>round((pred_count / total) * 100, 2) if total > 0 else 0.0\<close>\<close>

definition rate_of :: "pyfloat \<Rightarrow> int \<Rightarrow> py_exn + pyfloat" where
  "rate_of pred_count total' =
     (if total' > 0
      then and_then (truediv_int pred_count total') (\<lambda>x.
           and_then (mul_int x 100) (\<lambda>y. Inr (py_round2 y)))
      else Inr (Fin 0))"

text \<open>The second \<^verbatim>\<open>try\<close> of the route: predict, derive the rate, shape the response.\<close>

definition respond :: "store \<Rightarrow> int \<Rightarrow> int \<Rightarrow> string \<Rightarrow> response" where
  "respond st total' covered zone_name =
     (case and_then (predict_segregation st (make_input_data total' covered zone_name)) (\<lambda>pred_count.
           and_then (rate_of pred_count total') (\<lambda>rate.
           and_then (int_of_float pred_count) (\<lambda>n.
             Inr (Ok200 \<lparr>segregation_rate = rate, predicted_households = n,
                          model_used = ''XGBoost''\<rparr>
                        \<lparr>input_total_households = total',
                          input_covered_households = covered,
                          input_zone_name = zone_name\<rparr>)))) of
        Inr r \<Rightarrow> r
      | Inl e \<Rightarrow> Err500 ''Prediction failed'' (Some e))"

definition predict_route :: "store \<Rightarrow> body \<Rightarrow> response" where
  "predict_route st data =
     (if \<not> truthy data then Err400 ''No input data provided''
      else case data of
        BObject kv \<Rightarrow>
          (case get_and_validate kv of
             Inl r \<Rightarrow> r
           | Inr (total', covered, zone_name) \<Rightarrow>
               respond st total' covered (default_zone (unique_zones st) zone_name))
      | _ \<Rightarrow> Err500 ''An unexpected error occurred'' None)"

section \<open>Sample artifact stores\<close>

text \<open>
  \<open>failing_store\<close> is the process without \<^verbatim>\<open>saved_models/\<close> and without
  \<^verbatim>\<open>Data.csv\<close>: every load raises and \<^verbatim>\<open>_unique_zones\<close> is empty.
\<close>

definition failing_store :: store where
  "failing_store =
     \<lparr>load_model = Inl ArtifactError, load_encoder = Inl ArtifactError,
      load_scaler = Inl ArtifactError, load_columns = Inl ArtifactError,
      unique_zones = []\<rparr>"

text \<open>
  \<open>sample_store\<close> is a process whose artifacts load: an encoder that knows two zones
  (and raises \<^verbatim>\<open>ValueError\<close> on any other label, as a label encoder does), a
  scaler that passes the four columns on unchanged as floats, and the given model.
\<close>

definition sample_encoder :: zone_encoder where
  "sample_encoder =
     \<lparr>classes = [''Adyar'', ''Anna Nagar''],
      transform = (\<lambda>z. if z = ''Adyar'' then Inr 0
                        else if z = ''Anna Nagar'' then Inr 1 else Inl ValueError)\<rparr>"

fun as_float :: "pynum \<Rightarrow> pyfloat" where
  "as_float (PInt n) = Fin (of_int n)"
| "as_float (PFloat f) = f"

definition sample_store :: "(pyfloat list \<Rightarrow> py_exn + pyfloat) \<Rightarrow> store" where
  "sample_store model =
     \<lparr>load_model = Inr model, load_encoder = Inr sample_encoder,
      load_scaler = Inr (\<lambda>input_df. Inr (map (\<lambda>(col, v). as_float v) input_df)),
      load_columns = Inr [''Total_Households'', ''Covered_Households'', ''Zone_ID'', ''Ward No.''],
      unique_zones = [''Adyar'', ''Anna Nagar'']\<rparr>"


text \<open>A model whose prediction is far above any count, and one that returns the
  \<^verbatim>\<open>Ward No.\<close> feature it is given.\<close>

definition overshooting_model :: "pyfloat list \<Rightarrow> py_exn + pyfloat" where
  "overshooting_model input_scaled = Inr PInf"

definition ward_model :: "pyfloat list \<Rightarrow> py_exn + pyfloat" where
  "ward_model input_scaled =
     (if length input_scaled = 4 then Inr (input_scaled ! 3) else Inl ArtifactError)"


text \<open>A request that carries a ward number, under two spellings of the key.\<close>

definition ward_body :: "(string \<times> jval) list" where
  "ward_body =
     [(''total_households'', JInt 8), (''covered_households'', JInt 8),
      (''zone_name'', JStr ''Adyar''), (''ward_number'', JInt 7), (''Ward No.'', JInt 7)]"

text \<open>
  The sample store without \<^verbatim>\<open>Data.csv\<close> (so that \<^verbatim>\<open>_unique_zones\<close> is empty while the
  encoder knows its zones), and the sample store with an encoder whose \<open>transform\<close>
  raises on every label.
\<close>

definition no_data_store :: store where
  "no_data_store = (sample_store overshooting_model)\<lparr>unique_zones := []\<rparr>"

definition raising_encoder :: zone_encoder where
  "raising_encoder = sample_encoder\<lparr>transform := (\<lambda>z. Inl ValueError)\<rparr>"

definition raising_encoder_store :: store where
  "raising_encoder_store = (sample_store overshooting_model)\<lparr>load_encoder := Inr raising_encoder\<rparr>"

section \<open>Properties of the rounding\<close>

text \<open>
  \<open>ilog2\<close> is the binary exponent; \<open>rne\<close> is monotone, idempotent, and exact on every
  \<open>m * 2 ^ j\<close> with \<open>m \<le> 2 ^ 53\<close> and \<open>- 1074 \<le> j\<close>, in particular on the integers up
  to \<open>2 ^ 53\<close>.
\<close>

lemma bitlen_powi_bounds:
  assumes "0 < a"
  shows "(2::rat) powi (bitlen a - 1) \<le> of_int a" and "(of_int a :: rat) < 2 powi (bitlen a)"
proof -
  have b1: "1 \<le> bitlen a" using assms by (auto simp: bitlen_alt_def)
  from bitlen_bounds[OF assms] have lo: "2 ^ nat (bitlen a - 1) \<le> a" and hi: "a < 2 ^ nat (bitlen a)"
    by auto
  have "(of_int (2 ^ nat (bitlen a - 1)) :: rat) \<le> of_int a" using lo by (simp only: of_int_le_iff)
  then show "(2::rat) powi (bitlen a - 1) \<le> of_int a" using b1 by (simp add: power_int_def)
  have "(of_int a :: rat) < of_int (2 ^ nat (bitlen a))" using hi by (simp only: of_int_less_iff)
  then show "(of_int a :: rat) < 2 powi (bitlen a)" using b1 by (simp add: power_int_def)
qed

lemma powi2_pos: "0 < (2::rat) powi k"
  by simp

lemma powi2_mono: "a \<le> b \<Longrightarrow> (2::rat) powi a \<le> 2 powi b"
  by (rule power_int_increasing) simp_all

lemma powi2_strict_mono: "a < b \<Longrightarrow> (2::rat) powi a < 2 powi b"
  by (rule power_int_strict_increasing) simp_all

lemma ilog2_bounds:
  assumes "0 < x"
  shows "2 powi (ilog2 x) \<le> x" and "x < 2 powi (ilog2 x + 1)"
proof -
  obtain n d where qd: "quotient_of x = (n, d)" by (cases "quotient_of x")
  have d: "0 < d" using quotient_of_denom_pos[OF qd] .
  have x: "x = of_int n / of_int d" using quotient_of_div[OF qd] .
  have n: "0 < n" using assms d x by (simp add: zero_less_divide_iff)
  define bn where "bn = bitlen n"
  define bd where "bd = bitlen d"
  note nb = bitlen_powi_bounds[OF n, folded bn_def]
  note db = bitlen_powi_bounds[OF d, folded bd_def]
  have dpos: "(0::rat) < of_int d" using d by simp
  have lo: "2 powi (bn - bd - 1) \<le> x"
  proof -
    have "(2::rat) powi (bn - bd - 1) = 2 powi (bn - 1) / 2 powi bd"
      by (simp add: power_int_diff)
    also have "\<dots> \<le> of_int n / 2 powi bd"
      using nb(1) powi2_pos[of bd] by (simp add: divide_right_mono)
    also have "\<dots> \<le> of_int n / of_int d"
      using db(2) n dpos by (intro divide_left_mono) (auto simp: powi2_pos)
    finally show ?thesis using x by simp
  qed
  have hi: "x < 2 powi (bn - bd + 1)"
  proof -
    have "x = of_int n / of_int d" by (rule x)
    also have "\<dots> < 2 powi bn / of_int d"
      using nb(2) dpos by (simp add: divide_strict_right_mono)
    also have "\<dots> \<le> 2 powi bn / 2 powi (bd - 1)"
      using db(1) dpos by (intro divide_left_mono) (auto simp: powi2_pos less_imp_le)
    also have "\<dots> = 2 powi (bn - bd + 1)"
      by (simp add: power_int_diff power_int_add)
    finally show ?thesis .
  qed
  have e: "ilog2 x = (if 2 powi (bn - bd) \<le> x then bn - bd else bn - bd - 1)"
    by (simp add: ilog2_def qd Let_def bn_def bd_def)
  show "2 powi (ilog2 x) \<le> x" using lo by (simp add: e)
  show "x < 2 powi (ilog2 x + 1)" using hi by (auto simp add: e not_le)
qed

lemma ilog2_unique:
  assumes "0 < x" "2 powi e \<le> x" "x < 2 powi (e + 1)"
  shows "ilog2 x = e"
proof (rule ccontr)
  assume ne: "ilog2 x \<noteq> e"
  note b = ilog2_bounds[OF assms(1)]
  show False
  proof (cases "ilog2 x < e")
    case True
    then have "2 powi (ilog2 x + 1) \<le> (2::rat) powi e" by (intro powi2_mono) simp
    with b(2) assms(2) show False by simp
  next
    case False
    with ne have "e + 1 \<le> ilog2 x" by simp
    then have "(2::rat) powi (e + 1) \<le> 2 powi (ilog2 x)" by (intro powi2_mono)
    with b(1) assms(3) show False by simp
  qed
qed

lemma ilog2_mono:
  assumes "0 < x" "x \<le> y"
  shows "ilog2 x \<le> ilog2 y"
proof (rule ccontr)
  assume "\<not> ilog2 x \<le> ilog2 y"
  then have "ilog2 y + 1 \<le> ilog2 x" by simp
  then have "(2::rat) powi (ilog2 y + 1) \<le> 2 powi (ilog2 x)" by (intro powi2_mono)
  moreover have "0 < y" using assms by simp
  ultimately show False
    using ilog2_bounds(1)[OF assms(1)] ilog2_bounds(2)[of y] assms(2) by simp
qed


lemma rhe_cases: "round_half_even z = \<lfloor>z\<rfloor> \<or> round_half_even z = \<lfloor>z\<rfloor> + 1"
  by (simp add: round_half_even_def Let_def)

lemma rhe_of_int: "round_half_even (of_int n) = n"
  by (simp add: round_half_even_def Let_def)

lemma rhe_lower: "z - 1 / 2 \<le> of_int (round_half_even z)"
  unfolding round_half_even_def Let_def
  by (auto simp: not_less) linarith+

lemma rhe_upper: "of_int (round_half_even z) \<le> z + 1 / 2"
  unfolding round_half_even_def Let_def
  by (auto simp: not_less) linarith+

lemma rhe_unique:
  assumes "\<bar>z - of_int m\<bar> < 1 / 2"
  shows "round_half_even z = m"
proof -
  have "\<bar>(of_int (round_half_even z) :: rat) - of_int m\<bar> < 1"
    using rhe_lower[of z] rhe_upper[of z] assms by linarith
  then have "\<bar>round_half_even z - m\<bar> < 1"
    by (metis of_int_diff of_int_abs of_int_less_iff of_int_1)
  then show ?thesis by simp
qed

lemma rhe_le_int:
  assumes "z \<le> of_int n"
  shows "round_half_even z \<le> n"
proof -
  have "\<lfloor>z\<rfloor> \<le> n" using assms by (simp add: floor_le_iff)
  show ?thesis
  proof (cases "\<lfloor>z\<rfloor> = n")
    case True
    then have "z = of_int n" using assms by (metis floor_le_iff le_less not_le of_int_floor_le order_antisym)
    then show ?thesis by (simp add: rhe_of_int)
  next
    case False
    then have "\<lfloor>z\<rfloor> + 1 \<le> n" using \<open>\<lfloor>z\<rfloor> \<le> n\<close> by simp
    then show ?thesis using rhe_cases[of z] by auto
  qed
qed

lemma rhe_ge_int:
  assumes "of_int n \<le> z"
  shows "n \<le> round_half_even z"
proof -
  have "n \<le> \<lfloor>z\<rfloor>" using assms by (simp add: le_floor_iff)
  then show ?thesis using rhe_cases[of z] by auto
qed

lemma rhe_mono:
  assumes "z \<le> w"
  shows "round_half_even z \<le> round_half_even w"
proof (cases "\<lfloor>z\<rfloor> = \<lfloor>w\<rfloor>")
  case True
  then show ?thesis using assms
    unfolding round_half_even_def Let_def by (auto simp: not_less)
next
  case False
  then have "\<lfloor>z\<rfloor> + 1 \<le> \<lfloor>w\<rfloor>" using floor_mono[OF assms] by simp
  then show ?thesis using rhe_cases[of z] rhe_cases[of w] by auto
qed


lemma rne_pos:
  "0 < x \<Longrightarrow> rne x = of_int (round_half_even (x / 2 powi qexp x)) * 2 powi qexp x"
  by (simp add: rne_def Let_def)

lemma rne_0: "rne 0 = 0"
  by (simp add: rne_def)

lemma rne_minus: "rne (- x) = - rne x"
  by (simp add: rne_def Let_def qexp_def)

lemma rne_nonneg:
  assumes "0 \<le> x"
  shows "0 \<le> rne x"
proof (cases "x = 0")
  case True
  then show ?thesis by (simp add: rne_0)
next
  case False
  with assms have x: "0 < x" by simp
  have "(of_int 0 :: rat) \<le> x / 2 powi qexp x" using x by simp
  then have "0 \<le> round_half_even (x / 2 powi qexp x)" by (rule rhe_ge_int)
  then show ?thesis using x by (simp add: rne_pos)
qed

lemma rne_exact_aux:
  assumes "0 < x" "x / 2 powi qexp x = of_int k"
  shows "rne x = x"
proof -
  have "rne x = of_int k * 2 powi qexp x"
    using assms by (simp add: rne_pos rhe_of_int)
  also have "\<dots> = x / 2 powi qexp x * 2 powi qexp x" by (simp add: assms(2))
  also have "\<dots> = x" by simp
  finally show ?thesis .
qed

lemma powi2_of_int:
  assumes "0 \<le> k"
  shows "(2::rat) powi k = of_int (2 ^ nat k)"
  using assms by (simp add: power_int_def)

lemma rne_exact:
  assumes m: "0 < m" "m \<le> 2 ^ 53" and j: "- 1074 \<le> j"
  shows "rne (of_int m * 2 powi j) = of_int m * 2 powi j"
proof -
  define x :: rat where "x = of_int m * 2 powi j"
  have x: "0 < x" using m by (simp add: x_def)
  have ax: "\<bar>x\<bar> = x" using x by simp
  show ?thesis
  proof (cases "m = 2 ^ 53")
    case True
    have xe: "x = 2 powi (j + 53)"
      by (simp add: x_def True power_int_add)
    have "ilog2 x = j + 53"
      by (rule ilog2_unique[OF x]) (simp_all add: xe powi2_strict_mono)
    then have q: "qexp x = j + 1" using j by (simp add: qexp_def ax)
    have "x / 2 powi qexp x = x / 2 powi (j + 1)" by (simp only: q)
    also have "\<dots> = 2 powi (j + 53) / 2 powi (j + 1)" by (simp only: xe)
    also have "\<dots> = of_int (2 ^ 52)"
      using power_int_diff[of "2::rat" "j + 53" "j + 1"] by simp
    finally have "x / 2 powi qexp x = of_int (2 ^ 52)" .
    from rne_exact_aux[OF x this] show ?thesis by (simp only: x_def)
  next
    case False
    with m have lt: "m < 2 ^ 53" by simp
    have "(of_int m :: rat) < of_int (2 ^ 53)" using lt by (simp only: of_int_less_iff)
    then have "(of_int m :: rat) < 2 powi 53" by simp
    then have "x < 2 powi 53 * 2 powi j" by (simp add: x_def)
    then have "x < 2 powi (j + 53)" by (simp add: power_int_add mult.commute)
    with ilog2_bounds(1)[OF x] have "(2::rat) powi (ilog2 x) < 2 powi (j + 53)" by simp
    then have "ilog2 x < j + 53"
      by (metis not_less powi2_mono)
    then have q: "qexp x \<le> j" using j by (simp add: qexp_def ax)
    have "x / 2 powi qexp x = of_int m * 2 powi (j - qexp x)"
      by (simp add: x_def power_int_diff)
    also have "\<dots> = of_int (m * 2 ^ nat (j - qexp x))"
      using q by (simp add: powi2_of_int)
    finally have "x / 2 powi qexp x = of_int (m * 2 ^ nat (j - qexp x))" .
    from rne_exact_aux[OF x this] show ?thesis by (simp only: x_def)
  qed
qed

lemma rne_of_int:
  assumes "\<bar>n\<bar> \<le> 2 ^ 53"
  shows "rne (of_int n) = of_int n"
proof -
  have pos: "rne (of_int k) = of_int k" if "0 < k" "k \<le> 2 ^ 53" for k :: int
    using rne_exact[of k 0] that by simp
  show ?thesis
  proof (cases "0 < n")
    case True
    then show ?thesis using assms pos[of n] by simp
  next
    case False
    show ?thesis
    proof (cases "n = 0")
      case True
      then show ?thesis by (simp add: rne_0)
    next
      case False
      with \<open>\<not> 0 < n\<close> have "0 < - n" "- n \<le> 2 ^ 53" using assms by simp_all
      from pos[OF this] have "rne (- of_int n) = - of_int n" by simp
      then show ?thesis by (simp add: rne_minus)
    qed
  qed
qed

lemma rne_eqI:
  assumes "0 < x" "2 powi e \<le> x" "x < 2 powi (e + 1)"
    and "\<bar>x / 2 powi (max (e - 52) (- 1074)) - of_int m\<bar> < 1 / 2"
  shows "rne x = of_int m * 2 powi (max (e - 52) (- 1074))"
proof -
  have "ilog2 x = e" by (rule ilog2_unique[OF assms(1-3)])
  then have q: "qexp x = max (e - 52) (- 1074)" using assms(1) by (simp add: qexp_def)
  show ?thesis using assms(1) rhe_unique[OF assms(4)] by (simp add: rne_pos q)
qed


lemma qexp_ge: "- 1074 \<le> qexp x"
  by (simp add: qexp_def)

lemma qexp_mono:
  assumes "0 < x" "x \<le> y"
  shows "qexp x \<le> qexp y"
proof -
  have "ilog2 x \<le> ilog2 y" by (rule ilog2_mono[OF assms])
  then show ?thesis using assms by (simp add: qexp_def)
qed

lemma rne_pos_mono:
  assumes x: "0 < x" and xy: "x \<le> y"
  shows "rne x \<le> rne y"
proof -
  have y: "0 < y" using x xy by simp
  have le: "qexp x \<le> qexp y" by (rule qexp_mono[OF x xy])
  show ?thesis
  proof (cases "qexp x = qexp y")
    case True
    have "x / 2 powi qexp y \<le> y / 2 powi qexp y"
      using xy by (simp add: divide_right_mono)
    then have "round_half_even (x / 2 powi qexp y) \<le> round_half_even (y / 2 powi qexp y)"
      by (rule rhe_mono)
    then show ?thesis using x y by (simp add: rne_pos True)
  next
    case False
    with le have lt: "qexp x < qexp y" by simp
    have ey: "qexp y = ilog2 y - 52"
      using lt qexp_ge[of x] y by (auto simp add: qexp_def max_def split: if_splits)
    have ex: "ilog2 x - 52 \<le> qexp x" using x by (simp add: qexp_def)
    define C :: rat where "C = 2 powi (ilog2 y)"
    have xC: "x \<le> C"
    proof -
      have "ilog2 x + 1 \<le> ilog2 y" using lt ey ex by simp
      then have "(2::rat) powi (ilog2 x + 1) \<le> 2 powi (ilog2 y)" by (rule powi2_mono)
      with ilog2_bounds(2)[OF x] show ?thesis by (simp add: C_def)
    qed
    have Cy: "C \<le> y" using ilog2_bounds(1)[OF y] by (simp add: C_def)
    have k0: "0 \<le> ilog2 y - qexp x" using lt ey by simp
    have "x / 2 powi qexp x \<le> C / 2 powi qexp x"
      using xC by (simp add: divide_right_mono)
    also have "C / 2 powi qexp x = 2 powi (ilog2 y - qexp x)"
      by (simp add: C_def power_int_diff)
    also have "\<dots> = of_int (2 ^ nat (ilog2 y - qexp x))"
      by (rule powi2_of_int[OF k0])
    finally have "round_half_even (x / 2 powi qexp x) \<le> 2 ^ nat (ilog2 y - qexp x)"
      by (rule rhe_le_int)
    then have "(of_int (round_half_even (x / 2 powi qexp x)) :: rat)
        \<le> of_int (2 ^ nat (ilog2 y - qexp x))"
      by (simp only: of_int_le_iff)
    then have "rne x \<le> of_int (2 ^ nat (ilog2 y - qexp x)) * 2 powi qexp x"
      using x by (simp add: rne_pos)
    also have "\<dots> = 2 powi (ilog2 y - qexp x) * 2 powi qexp x"
      by (simp only: powi2_of_int[OF k0])
    also have "\<dots> = C"
      by (simp add: C_def power_int_diff)
    finally have r1: "rne x \<le> C" .
    have "C / 2 powi qexp y = 2 powi (ilog2 y - qexp y)"
      by (simp add: C_def power_int_diff)
    also have "\<dots> = of_int (2 ^ 52)" by (simp add: ey)
    finally have "of_int (2 ^ 52) = C / 2 powi qexp y" by simp
    also have "\<dots> \<le> y / 2 powi qexp y"
      using Cy by (simp add: divide_right_mono)
    finally have "2 ^ 52 \<le> round_half_even (y / 2 powi qexp y)"
      by (rule rhe_ge_int)
    then have "(of_int (2 ^ 52) :: rat) \<le> of_int (round_half_even (y / 2 powi qexp y))"
      by (simp only: of_int_le_iff)
    then have "of_int (2 ^ 52) * 2 powi qexp y \<le> rne y"
      using y by (simp add: rne_pos)
    moreover have "of_int (2 ^ 52) * 2 powi qexp y = C"
      using power_int_add[of "2::rat" 52 "ilog2 y - 52"] by (simp add: ey C_def)
    ultimately have r2: "C \<le> rne y" by simp
    from r1 r2 show ?thesis by simp
  qed
qed

lemma rne_mono:
  assumes "x \<le> y"
  shows "rne x \<le> rne y"
proof -
  consider "0 < x" | "x \<le> 0" "0 \<le> y" | "y < 0" by linarith
  then show ?thesis
  proof cases
    case 1
    then show ?thesis using assms by (rule rne_pos_mono)
  next
    case 2
    have "rne x \<le> 0" using rne_nonneg[of "- x"] 2(1) by (simp add: rne_minus)
    moreover have "0 \<le> rne y" using 2(2) by (rule rne_nonneg)
    ultimately show ?thesis by simp
  next
    case 3
    then have "0 < - y" "- y \<le> - x" using assms by simp_all
    from rne_pos_mono[OF this] show ?thesis by (simp add: rne_minus)
  qed
qed

lemma rne_idem: "rne (rne x) = rne x"
proof -
  have pos: "rne (rne x) = rne x" if x: "0 < x" for x
  proof -
    define M where "M = round_half_even (x / 2 powi qexp x)"
    have r: "rne x = of_int M * 2 powi qexp x" using x by (simp add: rne_pos M_def)
    have "(of_int 0 :: rat) \<le> x / 2 powi qexp x" using x by simp
    then have M0: "0 \<le> M" unfolding M_def by (rule rhe_ge_int)
    have "ilog2 x + 1 \<le> qexp x + 53" using x by (simp add: qexp_def)
    then have "(2::rat) powi (ilog2 x + 1) \<le> 2 powi (qexp x + 53)" by (rule powi2_mono)
    with ilog2_bounds(2)[OF x] have "x \<le> 2 powi (qexp x + 53)" by simp
    then have "x / 2 powi qexp x \<le> 2 powi (qexp x + 53) / 2 powi qexp x"
      by (simp add: divide_right_mono)
    also have "\<dots> = of_int (2 ^ 53)"
      using power_int_diff[of "2::rat" "qexp x + 53" "qexp x"] by simp
    finally have M53: "M \<le> 2 ^ 53" unfolding M_def by (rule rhe_le_int)
    show ?thesis
    proof (cases "M = 0")
      case True
      then show ?thesis by (simp add: r rne_0)
    next
      case False
      with M0 have "0 < M" by simp
      from rne_exact[OF this M53 qexp_ge] show ?thesis by (simp add: r)
    qed
  qed
  consider "0 < x" | "x = 0" | "x < 0" by linarith
  then show ?thesis
  proof cases
    case 1
    then show ?thesis by (rule pos)
  next
    case 2
    then show ?thesis by (simp add: rne_0)
  next
    case 3
    then have "0 < - x" by simp
    from pos[OF this] show ?thesis by (simp add: rne_minus)
  qed
qed

lemma rne_7_10: "rne (7 / 10) = 3152519739159347 / 4503599627370496"
  using rne_eqI[of "7 / 10" "- 1" 6305039478318694] by (simp add: power_int_minus)

section \<open>Properties of the pipeline stages\<close>

text \<open>
  What \<^verbatim>\<open>predict_segregation\<close> returns is a finite float between 0 and
  \<^verbatim>\<open>float(covered)\<close>, on both of its paths; and a success response of the route comes
  from a validated request.
\<close>

lemma neg_big_less: "0 \<le> x \<Longrightarrow> - (2 ^ 1024) < (x::rat)"
proof -
  assume "0 \<le> x"
  moreover have "- (2 ^ 1024) < (0::rat)" by simp
  ultimately show ?thesis by (rule less_le_trans[rotated])
qed

lemma abs_less_big:
  assumes "\<bar>x\<bar> \<le> 2 ^ 53"
  shows "- (2 ^ 1024) < (x::rat)" and "x < 2 ^ 1024"
proof -
  have b: "(2::rat) ^ 53 < 2 ^ 1024" by (rule power_strict_increasing) simp_all
  have u: "x \<le> 2 ^ 53" and l: "- (2 ^ 53) \<le> x" using assms by (simp_all add: abs_le_iff)
  from u b show "x < 2 ^ 1024" by (rule le_less_trans)
  have "- ((2::rat) ^ 1024) < - (2 ^ 53)" using b by (simp only: neg_less_iff_less)
  from this l show "- (2 ^ 1024) < x" by (rule less_le_trans)
qed

lemma rnd64_Fin:
  assumes "- (2 ^ 1024) < rne x" "rne x < 2 ^ 1024"
  shows "rnd64 x = Fin (rne x)"
  using assms by (simp add: rnd64_def Let_def)

lemma rnd64_cases:
  "rnd64 x = Fin (rne x) \<or> rnd64 x = PInf \<or> rnd64 x = NInf"
  by (simp add: rnd64_def Let_def)

lemma rnd64_eq_Fin:
  assumes "rnd64 x = Fin r"
  shows "r = rne x" and "- (2 ^ 1024) < r" and "r < 2 ^ 1024"
  using assms by (auto simp: rnd64_def Let_def split: if_splits)

lemma float_of_int_Inr:
  assumes "float_of_int n = Inr f"
  shows "f = Fin (rne (of_int n))" and "- (2 ^ 1024) < rne (of_int n)" and "rne (of_int n) < 2 ^ 1024"
  using assms rnd64_eq_Fin[of "of_int n"]
  by (auto simp: float_of_int_def split: pyfloat.splits)

lemma float_of_int_exact:
  assumes "\<bar>n\<bar> \<le> 2 ^ 53"
  shows "float_of_int n = Inr (Fin (of_int n))"
proof -
  have r: "rne (of_int n) = of_int n" by (rule rne_of_int[OF assms])
  have "(of_int \<bar>n\<bar> :: rat) \<le> of_int (2 ^ 53)" using assms by (simp only: of_int_le_iff)
  then have "\<bar>of_int n :: rat\<bar> \<le> 2 ^ 53" by simp
  then have "- (2 ^ 1024) < (of_int n :: rat)" "(of_int n :: rat) < 2 ^ 1024"
    by (rule abs_less_big)+
  then have "rnd64 (of_int n) = Fin (of_int n)" using rnd64_Fin[of "of_int n"] by (simp add: r)
  then show ?thesis by (simp add: float_of_int_def)
qed

lemma float_of_int_below:
  assumes t: "float_of_int t = Inr tf" and c: "0 \<le> c" "c \<le> t"
  shows "float_of_int c = Inr (Fin (rne (of_int c)))"
    and "0 \<le> rne (of_int c)" and "rne (of_int c) \<le> rne (of_int t)"
proof -
  have "(of_int c :: rat) \<le> of_int t" using c by simp
  then show le: "rne (of_int c) \<le> rne (of_int t)" by (rule rne_mono)
  have "(0::rat) \<le> of_int c" using c by simp
  then show nn: "0 \<le> rne (of_int c)" by (rule rne_nonneg)
  from float_of_int_Inr(3)[OF t] le have "rne (of_int c) < 2 ^ 1024" by simp
  moreover from nn have "- (2 ^ 1024) < rne (of_int c)" by (rule neg_big_less)
  ultimately have "rnd64 (of_int c) = Fin (rne (of_int c))" by (intro rnd64_Fin)
  then show "float_of_int c = Inr (Fin (rne (of_int c)))" by (simp add: float_of_int_def)
qed

lemma float_of_int_pos:
  assumes "0 < t"
  shows "1 \<le> rne (of_int t)"
proof -
  have "(of_int 1 :: rat) \<le> of_int t" using assms by simp
  then have "rne (of_int 1) \<le> rne (of_int t)" by (rule rne_mono)
  moreover have "rne (of_int 1) = of_int 1" by (rule rne_of_int) simp
  ultimately show ?thesis by simp
qed

lemma clamp_range:
  assumes "0 \<le> cf"
  shows "\<exists>r. py_max (Fin 0) (py_min pred (Fin cf)) = Fin r \<and> 0 \<le> r \<and> r \<le> cf"
  using assms by (cases pred) (auto simp: py_max_def py_min_def)

lemma f0_7_val: "f0_7 = Fin (3152519739159347 / 4503599627370496)"
  by (simp add: f0_7_def rnd64_def rne_7_10)


lemma and_then_Inr:
  "and_then r f = Inr y \<longleftrightarrow> (\<exists>v. r = Inr v \<and> f v = Inr y)"
  by (cases r) (simp_all add: and_then_def)

lemma and_then_simps:
  "and_then (Inl e) f = Inl e" "and_then (Inr v) f = f v"
  by (simp_all add: and_then_def)

lemma predict_body_range:
  assumes "predict_body st inp = Inr p" and "0 \<le> Covered_Households inp"
  shows "\<exists>r. p = Fin r \<and> 0 \<le> r \<and> r \<le> rne (of_int (Covered_Households inp))"
proof -
  from assms(1) obtain cf pred where
    cf: "float_of_int (Covered_Households inp) = Inr cf" and
    p: "p = py_max (Fin 0) (py_min pred cf)"
    unfolding predict_body_def and_then_Inr by auto
  from float_of_int_Inr(1)[OF cf] have cfv: "cf = Fin (rne (of_int (Covered_Households inp)))" .
  have "(0::rat) \<le> of_int (Covered_Households inp)" using assms(2) by simp
  then have "0 \<le> rne (of_int (Covered_Households inp))" by (rule rne_nonneg)
  from clamp_range[OF this, of pred] show ?thesis by (simp add: p cfv)
qed

lemma r07_range:
  "(0::rat) \<le> 3152519739159347 / 4503599627370496" "(3152519739159347 / 4503599627370496 :: rat) \<le> 1"
  by simp_all

lemma fallback_range:
  assumes "fallback inp = Inr p" and "0 \<le> Covered_Households inp"
  shows "\<exists>r. p = Fin r \<and> 0 \<le> r \<and> r \<le> rne (of_int (Covered_Households inp))"
proof -
  define c :: rat where "c = rne (of_int (Covered_Households inp))"
  define k :: rat where "k = 3152519739159347 / 4503599627370496"
  from assms(1) obtain cf where
    cf: "float_of_int (Covered_Households inp) = Inr cf" and p: "p = fmul cf f0_7"
    unfolding fallback_def and_then_Inr by auto
  from float_of_int_Inr[OF cf] have cfv: "cf = Fin c" and big: "c < 2 ^ 1024"
    by (simp_all add: c_def)
  have "(0::rat) \<le> of_int (Covered_Households inp)" using assms(2) by simp
  then have c0: "0 \<le> c" unfolding c_def by (rule rne_nonneg)
  have k01: "0 \<le> k" "k \<le> 1" by (simp_all add: k_def)
  have "0 \<le> c * k" using c0 k01 by simp
  then have lo: "0 \<le> rne (c * k)" by (rule rne_nonneg)
  have "c * k \<le> c * 1" using c0 k01 by (intro mult_left_mono) simp_all
  then have "rne (c * k) \<le> rne c" using rne_mono[of "c * k" c] by simp
  then have hi: "rne (c * k) \<le> c" by (simp add: c_def rne_idem)
  from hi big have "rne (c * k) < 2 ^ 1024" by simp
  with neg_big_less[OF lo] have "rnd64 (c * k) = Fin (rne (c * k))" by (intro rnd64_Fin)
  then have "p = Fin (rne (c * k))" by (simp add: p cfv f0_7_val k_def)
  with lo hi show ?thesis by (simp add: c_def)
qed

lemma predict_segregation_range:
  assumes "predict_segregation st inp = Inr p" and "0 \<le> Covered_Households inp"
  shows "\<exists>r. p = Fin r \<and> 0 \<le> r \<and> r \<le> rne (of_int (Covered_Households inp))"
proof (cases "predict_body st inp")
  case (Inl e)
  with assms(1) have "fallback inp = Inr p" by (simp add: predict_segregation_def)
  then show ?thesis using assms(2) by (rule fallback_range)
next
  case (Inr q)
  with assms(1) have "predict_body st inp = Inr p" by (simp add: predict_segregation_def)
  then show ?thesis using assms(2) by (rule predict_body_range)
qed

lemma get_and_validate_Inr:
  assumes "get_and_validate kv = Inr (t, c, z)"
  shows "py_int (dict_get kv ''total_households'' (JInt 0)) = Inr t"
    and "py_int (dict_get kv ''covered_households'' (JInt 0)) = Inr c"
    and "z = py_strip (py_str (dict_get kv ''zone_name'' (JStr [])))"
    and "0 < t" and "0 \<le> c" and "c \<le> t"
  using assms
  by (auto simp: get_and_validate_def Let_def split: sum.splits if_splits)

lemma int_of_float_Inl:
  assumes "int_of_float f = Inl e"
  shows "e = ValueError \<or> e = OverflowError"
  using assms by (cases f) auto

lemma py_int_Inl:
  assumes "py_int v = Inl e"
  shows "e = ValueError \<or> e = TypeError \<or> e = OverflowError"
  using assms
  by (cases v)
     (auto simp: int_of_str_def Let_def split: option.splits if_splits dest: int_of_float_Inl)

lemma conversion_failed_cases:
  "conversion_failed e = Err400 ''Invalid input data''
   \<or> conversion_failed e = Err500 ''An unexpected error occurred'' None"
  by (simp add: conversion_failed_def)

lemma get_and_validate_Inl:
  assumes "get_and_validate kv = Inl r"
  shows "r = Err400 ''Invalid input data''
       \<or> r = Err500 ''An unexpected error occurred'' None
       \<or> r = Err400 ''Total households must be greater than 0''
       \<or> r = Err400 ''Covered households must be between 0 and total''"
  using assms conversion_failed_cases
  by (auto simp: get_and_validate_def Let_def split: sum.splits if_splits)

lemma respond_Ok200:
  assumes "respond st t c z = Ok200 p i"
  shows "\<exists>pred_count.
      predict_segregation st (make_input_data t c z) = Inr pred_count \<and>
      rate_of pred_count t = Inr (segregation_rate p) \<and>
      int_of_float pred_count = Inr (predicted_households p) \<and>
      model_used p = ''XGBoost'' \<and>
      i = \<lparr>input_total_households = t, input_covered_households = c, input_zone_name = z\<rparr>"
  using assms unfolding respond_def
  by (auto simp: and_then_Inr split: sum.splits)

lemma predict_route_Ok200:
  assumes "predict_route st data = Ok200 p i"
  shows "\<exists>kv t c z. data = BObject kv \<and> get_and_validate kv = Inr (t, c, z) \<and>
      respond st t c (default_zone (unique_zones st) z) = Ok200 p i"
  using assms unfolding predict_route_def
  by (auto split: if_splits body.splits sum.splits dest: get_and_validate_Inl)

section \<open>Evaluating the pipeline on concrete requests\<close>

text \<open>
  A value of \<open>rne\<close> is computed from the exponent of its argument; the responses
  below are then obtained by rewriting with the definitions.
\<close>

lemma rne_eval:
  assumes "0 < x" "2 powi e \<le> x" "x < 2 powi (e + 1)"
  shows "rne x = of_int (round_half_even (x / 2 powi (max (e - 52) (- 1074))))
                 * 2 powi (max (e - 52) (- 1074))"
proof -
  have "ilog2 x = e" by (rule ilog2_unique[OF assms])
  then have "qexp x = max (e - 52) (- 1074)" using assms(1) by (simp add: qexp_def)
  then show ?thesis using assms(1) by (simp add: rne_pos)
qed

lemma rne_numeral:
  assumes "(numeral k :: int) \<le> 2 ^ 53"
  shows "rne (numeral k) = numeral k"
  using rne_of_int[of "numeral k"] assms by simp

lemma float_of_int_numeral:
  assumes "(numeral k :: int) \<le> 2 ^ 53"
  shows "float_of_int (numeral k) = Inr (Fin (numeral k))"
  using float_of_int_exact[of "numeral k"] assms by simp

lemma floor_rat_numeral:
  "\<lfloor>numeral a / numeral b :: rat\<rfloor> = numeral a div numeral b"
  by (metis floor_divide_of_int_eq of_int_numeral)

lemma rnd64_numeral:
  assumes "(numeral k :: int) \<le> 2 ^ 53"
  shows "rnd64 (numeral k) = Fin (numeral k)"
  using float_of_int_numeral[OF assms] by (simp add: float_of_int_def split: pyfloat.splits)

lemma rnd64_07_times_4: "rnd64 (3152519739159347 / 1125899906842624) = Fin (3152519739159347 / 1125899906842624)"
proof -
  have "rne (3152519739159347 / 1125899906842624) = 3152519739159347 / 1125899906842624"
    using rne_exact[of 3152519739159347 "- 50"] by simp
  then show ?thesis by (simp add: rnd64_def)
qed

lemma rnd64_07:
  "rnd64 (3152519739159347 / 4503599627370496) = Fin (3152519739159347 / 4503599627370496)"
proof -
  have "rne (3152519739159347 / 4503599627370496) = 3152519739159347 / 4503599627370496"
    using rne_exact[of 3152519739159347 "- 52"] by simp
  then show ?thesis by (simp add: rnd64_def)
qed

lemma rnd64_07_times_100: "rnd64 (78812993478983675 / 1125899906842624) = Fin 70"
proof -
  have "rne (78812993478983675 / 1125899906842624) = 70"
    using rne_eval[of "78812993478983675 / 1125899906842624" 6]
    by (simp add: round_half_even_def floor_rat_numeral)
  then show ?thesis by (simp add: rnd64_def)
qed

lemma route_fallback_4_4:
  "predict_route failing_store
     (BObject [(''total_households'', JInt 4), (''covered_households'', JInt 4)])
   = Ok200 \<lparr>segregation_rate = Fin 70, predicted_households = 2, model_used = ''XGBoost''\<rparr>
       \<lparr>input_total_households = 4, input_covered_households = 4, input_zone_name = ''Unknown''\<rparr>"
  by (simp add: predict_route_def get_and_validate_def dict_get_def py_strip_def default_zone_def
      failing_store_def respond_def predict_segregation_def predict_body_def fallback_def
      make_input_data_def rate_of_def truediv_int_def mul_int_def and_then_simps
      float_of_int_numeral f0_7_val rnd64_07_times_4 rnd64_07 rnd64_07_times_100 rnd64_numeral
      round_half_even_def floor_rat_numeral)

lemmas route_defs =
  predict_route_def get_and_validate_def dict_get_def py_strip_def default_zone_def
  respond_def predict_segregation_def predict_body_def fallback_def
  make_input_data_def rate_of_def truediv_int_def mul_int_def and_then_simps
  build_frame_def input_features_def encode_zone_def
  float_of_int_numeral f0_7_val rnd64_numeral round_half_even_def floor_rat_numeral

lemma rnd64_1: "rnd64 1 = Fin 1"
  using float_of_int_exact[of 1] by (simp add: float_of_int_def split: pyfloat.splits)

lemma rnd64_5_07: "rnd64 (15762598695796735 / 4503599627370496) = Fin (7 / 2)"
proof -
  have "rne (15762598695796735 / 4503599627370496) = 7 / 2"
    using rne_eval[of "15762598695796735 / 4503599627370496" "1"]
    by (simp add: round_half_even_def floor_rat_numeral)
  then show ?thesis by (simp add: rnd64_def)
qed

lemma rnd64_35_10: "rnd64 (7 / 20) = Fin (3152519739159347 / 9007199254740992)"
proof -
  have "rne (7 / 20) = 3152519739159347 / 9007199254740992"
    using rne_eval[of "7 / 20" "- 2"]
    by (simp add: round_half_even_def floor_rat_numeral)
  then show ?thesis by (simp add: rnd64_def)
qed

lemma rnd64_035_100: "rnd64 (78812993478983675 / 2251799813685248) = Fin 35"
proof -
  have "rne (78812993478983675 / 2251799813685248) = 35"
    using rne_eval[of "78812993478983675 / 2251799813685248" "5"]
    by (simp add: round_half_even_def floor_rat_numeral)
  then show ?thesis by (simp add: rnd64_def)
qed

lemma rnd64_3_10: "rnd64 (3 / 10) = Fin (5404319552844595 / 18014398509481984)"
proof -
  have "rne (3 / 10) = 5404319552844595 / 18014398509481984"
    using rne_eval[of "3 / 10" "- 2"]
    by (simp add: round_half_even_def floor_rat_numeral)
  then show ?thesis by (simp add: rnd64_def)
qed

lemma rnd64_03_100: "rnd64 (135107988821114875 / 4503599627370496) = Fin 30"
proof -
  have "rne (135107988821114875 / 4503599627370496) = 30"
    using rne_eval[of "135107988821114875 / 4503599627370496" "4"]
    by (simp add: round_half_even_def floor_rat_numeral)
  then show ?thesis by (simp add: rnd64_def)
qed

lemma rnd64_2p54_3: "rnd64 18014398509481987 = Fin 18014398509481988"
proof -
  have "rne 18014398509481987 = 18014398509481988"
    using rne_eval[of "18014398509481987" "54"]
    by (simp add: round_half_even_def floor_rat_numeral)
  then show ?thesis by (simp add: rnd64_def)
qed

lemma float_of_int_2p54_3: "float_of_int 18014398509481987 = Inr (Fin 18014398509481988)"
  using rnd64_2p54_3 by (simp add: float_of_int_def)

lemma route_fallback_10_5:
  "predict_route failing_store
     (BObject [(''total_households'', JInt 10), (''covered_households'', JInt 5)])
   = Ok200 \<lparr>segregation_rate = Fin 35, predicted_households = 3, model_used = ''XGBoost''\<rparr>
       \<lparr>input_total_households = 10, input_covered_households = 5, input_zone_name = ''Unknown''\<rparr>"
  by (simp add: route_defs failing_store_def rnd64_5_07 rnd64_35_10 rnd64_035_100)

lemma rate_of_3_10: "rate_of (Fin 3) 10 = Inr (Fin 30)"
  by (simp add: route_defs rnd64_3_10 rnd64_03_100)

lemma route_overshoot:
  "predict_route (sample_store overshooting_model)
     (BObject [(''total_households'', JInt 18014398509481987),
               (''covered_households'', JInt 18014398509481987),
               (''zone_name'', JStr ''Adyar'')])
   = Ok200 \<lparr>segregation_rate = Fin 100, predicted_households = 18014398509481988,
             model_used = ''XGBoost''\<rparr>
       \<lparr>input_total_households = 18014398509481987,
        input_covered_households = 18014398509481987, input_zone_name = ''Adyar''\<rparr>"
  by (simp add: route_defs sample_store_def sample_encoder_def overshooting_model_def
      float_of_int_2p54_3 rnd64_1 is_space_def py_min_def py_max_def)

lemma validate_4_4:
  "get_and_validate [(''total_households'', JInt 4), (''covered_households'', JInt 4)]
     = Inr (4, 4, [])"
  by (simp add: get_and_validate_def dict_get_def py_strip_def)

lemma rnd64_1_8: "rnd64 (1 / 8) = Fin (1 / 8)"
proof -
  have "rne (1 / 8) = 1 / 8" using rne_exact[of 1 "- 3"] by simp
  then show ?thesis by (simp add: rnd64_def)
qed

lemma rnd64_1_2: "rnd64 (1 / 2) = Fin (1 / 2)"
proof -
  have "rne (1 / 2) = 1 / 2" using rne_exact[of 1 "- 1"] by simp
  then show ?thesis by (simp add: rnd64_def)
qed

lemma rnd64_25_2: "rnd64 (25 / 2) = Fin (25 / 2)"
proof -
  have "rne (25 / 2) = 25 / 2" using rne_exact[of 25 "- 1"] by simp
  then show ?thesis by (simp add: rnd64_def)
qed

lemma route_ward_body:
  "predict_route (sample_store ward_model) (BObject ward_body)
   = Ok200 \<lparr>segregation_rate = Fin (25 / 2), predicted_households = 1,
             model_used = ''XGBoost''\<rparr>
       \<lparr>input_total_households = 8, input_covered_households = 8, input_zone_name = ''Adyar''\<rparr>"
  by (simp add: route_defs ward_body_def sample_store_def sample_encoder_def ward_model_def
      is_space_def py_min_def py_max_def rnd64_1_8 rnd64_25_2)

lemma segregation_ward_7:
  "predict_segregation (sample_store ward_model)
     \<lparr>Total_Households = 8, Covered_Households = 8, Zone_Name = ''Adyar'', Ward_No = Some 7\<rparr>
   = Inr (Fin 7)"
  by (simp add: route_defs sample_store_def sample_encoder_def ward_model_def
      is_space_def py_min_def py_max_def)

lemma route_blank_zone:
  "predict_route (sample_store overshooting_model)
     (BObject [(''total_households'', JInt 8), (''covered_households'', JInt 4),
               (''zone_name'', JStr ''  '')])
   = Ok200 \<lparr>segregation_rate = Fin 50, predicted_households = 4, model_used = ''XGBoost''\<rparr>
       \<lparr>input_total_households = 8, input_covered_households = 4, input_zone_name = ''Adyar''\<rparr>"
  by (simp add: route_defs sample_store_def sample_encoder_def overshooting_model_def
      is_space_def py_min_def py_max_def rnd64_1_2)

text \<open>
  The float product is not the exact one: \<^verbatim>\<open>90 * 0.7\<close> is the float just below 63,
  and its integer part is 62.
\<close>

lemma rnd64_07_times_90: "rnd64 (141863388262170615 / 2251799813685248) = Fin (8866461766385663 / 140737488355328)"
proof -
  have "rne (141863388262170615 / 2251799813685248) = 8866461766385663 / 140737488355328"
    using rne_eval[of "141863388262170615 / 2251799813685248" "5"]
    by (simp add: round_half_even_def floor_rat_numeral)
  then show ?thesis by (simp add: rnd64_def)
qed

lemma fallback_90:
  "fallback (make_input_data 100 90 z) = Inr (Fin (8866461766385663 / 140737488355328))"
  "int_of_float (Fin (8866461766385663 / 140737488355328)) = Inr 62"
  by (simp_all add: fallback_def make_input_data_def and_then_simps float_of_int_numeral
      f0_7_val rnd64_07_times_90 floor_rat_numeral)

text \<open>
  \<^verbatim>\<open>float(2 ** 1024)\<close> raises \<^verbatim>\<open>OverflowError\<close>. With such a total the fallback
  estimate is still computed from the covered count, but the division for the rate
  raises, and the route answers 500.
\<close>

lemma float_of_int_overflow: "float_of_int (2 ^ 1024) = Inl OverflowError"
proof -
  have "rne (of_int 1 * 2 powi 1024) = of_int 1 * 2 powi 1024"
    by (rule rne_exact) simp_all
  then have "rne (2 ^ 1024) = 2 ^ 1024" by simp
  then have "rnd64 (2 ^ 1024) = PInf" by (simp add: rnd64_def)
  then show ?thesis by (simp add: float_of_int_def)
qed

lemma route_overflow_at:
  assumes "float_of_int t = Inl OverflowError" and "0 < t"
  shows "predict_route failing_store
     (BObject [(''total_households'', JInt t), (''covered_households'', JInt 1)])
   = Err500 ''Prediction failed'' (Some OverflowError)"
proof -
  have v: "get_and_validate [(''total_households'', JInt t), (''covered_households'', JInt 1)]
      = Inr (t, 1, [])"
    using assms(2) by (simp add: get_and_validate_def dict_get_def py_strip_def)
  have f: "float_of_int 1 = Inr (Fin 1)" using float_of_int_exact[of 1] by simp
  have p: "predict_segregation failing_store (make_input_data t 1 ''Unknown'')
      = Inr (Fin (3152519739159347 / 4503599627370496))"
    by (simp add: predict_segregation_def predict_body_def fallback_def failing_store_def
        make_input_data_def and_then_simps f f0_7_val rnd64_07)
  have r: "rate_of (Fin (3152519739159347 / 4503599627370496)) t = Inl OverflowError"
    using assms by (simp add: rate_of_def truediv_int_def and_then_simps)
  have z: "default_zone (unique_zones failing_store) [] = ''Unknown''"
    by (simp add: default_zone_def failing_store_def)
  show ?thesis
    by (simp add: predict_route_def v z respond_def p r and_then_simps)
qed

lemma route_overflow:
  "predict_route failing_store
     (BObject [(''total_households'', JInt (2 ^ 1024)), (''covered_households'', JInt 1)])
   = Err500 ''Prediction failed'' (Some OverflowError)"
  by (rule route_overflow_at[OF float_of_int_overflow]) simp



text \<open>
  Without \<^verbatim>\<open>Data.csv\<close> a blank zone name becomes \<^verbatim>\<open>"Unknown"\<close>, whatever zones the
  encoder knows.
\<close>

lemma route_blank_zone_no_data:
  "predict_route no_data_store
     (BObject [(''total_households'', JInt 8), (''covered_households'', JInt 4),
               (''zone_name'', JStr ''  '')])
   = Ok200 \<lparr>segregation_rate = Fin 50, predicted_households = 4, model_used = ''XGBoost''\<rparr>
       \<lparr>input_total_households = 8, input_covered_households = 4, input_zone_name = ''Unknown''\<rparr>"
  by (simp add: route_defs no_data_store_def sample_store_def sample_encoder_def
      overshooting_model_def is_space_def py_min_def py_max_def rnd64_1_2)

text \<open>
  An encoder that raises does not send \<^verbatim>\<open>predict_segregation\<close> to its fallback: the
  zone code is 0 and the model is asked. Here the model's prediction is clamped to the
  4 covered households; the fallback would have given 2.8.
\<close>

lemma raising_encoder_keeps_model_path:
  "predict_body raising_encoder_store (make_input_data 8 4 ''Adyar'') = Inr (Fin 4)"
  by (simp add: route_defs raising_encoder_store_def raising_encoder_def sample_store_def
      sample_encoder_def overshooting_model_def is_space_def py_min_def py_max_def)

section \<open>Further properties of the route\<close>

text \<open>
  The fallback value and the rate are defined whenever the total converts to a float,
  no stage raises \<^verbatim>\<open>ZeroDivisionError\<close>, and the zone name reaches the model through
  its code only.
\<close>

lemma fallback_value:
  assumes c: "0 \<le> c" "c \<le> t" and t: "float_of_int t = Inr tf"
  shows "\<exists>cf r. float_of_int c = Inr (Fin cf) \<and> fmul (Fin cf) f0_7 = Fin r \<and> 0 \<le> r
           \<and> fallback (make_input_data t c z) = Inr (Fin r)"
proof -
  define cf where "cf = rne (of_int c)"
  have fc: "float_of_int c = Inr (Fin cf)"
    unfolding cf_def by (rule float_of_int_below(1)[OF t c])
  then have fb: "fallback (make_input_data t c z) = Inr (fmul (Fin cf) f0_7)"
    by (simp add: fallback_def make_input_data_def and_then_simps)
  from fallback_range[OF fb] c(1) obtain r where "fmul (Fin cf) f0_7 = Fin r" "0 \<le> r"
    by (auto simp: make_input_data_def)
  with fc fb show ?thesis by auto
qed

lemma rate_of_defined:
  assumes t: "0 < t" "float_of_int t = Inr tf"
  shows "\<exists>rate. rate_of (Fin r) t = Inr rate"
proof -
  from float_of_int_Inr(1)[OF t(2)] have tf: "tf = Fin (rne (of_int t))" .
  have "rne (of_int t) \<noteq> 0" using float_of_int_pos[OF t(1)] by simp
  then have "\<exists>x. truediv_int (Fin r) t = Inr x"
    by (simp add: truediv_int_def t(2) tf and_then_simps)
  moreover have "mul_int x 100 = Inr (fmul x (Fin 100))" for x
    by (simp add: mul_int_def float_of_int_numeral and_then_simps)
  ultimately show ?thesis using t(1) by (auto simp: rate_of_def and_then_simps)
qed

lemma truediv_int_no_zero_division:
  assumes "0 < t"
  shows "truediv_int p t \<noteq> Inl ZeroDivisionError"
proof (cases "float_of_int t")
  case (Inl e)
  then have "e = OverflowError" by (auto simp: float_of_int_def split: pyfloat.splits)
  with Inl show ?thesis by (simp add: truediv_int_def and_then_simps)
next
  case (Inr tf)
  from float_of_int_Inr(1)[OF Inr] have tf: "tf = Fin (rne (of_int t))" .
  have "rne (of_int t) \<noteq> 0" using float_of_int_pos[OF assms] by simp
  then show ?thesis by (simp add: truediv_int_def Inr tf and_then_simps)
qed

lemma rate_of_no_zero_division: "rate_of p t \<noteq> Inl ZeroDivisionError"
proof (cases "0 < t")
  case True
  show ?thesis
  proof (cases "truediv_int p t")
    case (Inl e)
    with truediv_int_no_zero_division[OF True, of p] show ?thesis
      using True by (auto simp: rate_of_def and_then_simps)
  next
    case (Inr x)
    then show ?thesis using True
      by (simp add: rate_of_def mul_int_def float_of_int_numeral and_then_simps)
  qed
next
  case False
  then show ?thesis by (simp add: rate_of_def)
qed

lemma fallback_no_zero_division: "fallback inp \<noteq> Inl ZeroDivisionError"
  by (auto simp: fallback_def float_of_int_def and_then_def split: pyfloat.splits sum.splits)

lemma predict_segregation_no_zero_division:
  "predict_segregation st inp \<noteq> Inl ZeroDivisionError"
  using fallback_no_zero_division[of inp]
  by (auto simp: predict_segregation_def split: sum.splits)

lemma respond_no_zero_division:
  "respond st t c z \<noteq> Err500 msg (Some ZeroDivisionError)"
proof (cases "predict_segregation st (make_input_data t c z)")
  case (Inl e)
  with predict_segregation_no_zero_division[of st "make_input_data t c z"]
  show ?thesis by (simp add: respond_def and_then_simps)
next
  case ps: (Inr pred_count)
  show ?thesis
  proof (cases "rate_of pred_count t")
    case (Inl e)
    with rate_of_no_zero_division[of pred_count t]
    show ?thesis by (simp add: respond_def ps and_then_simps)
  next
    case rt: (Inr rate)
    show ?thesis
      using ps rt by (cases pred_count) (simp_all add: respond_def and_then_simps)
  qed
qed

lemma predict_body_zone:
  assumes "load_encoder st = Inr le"
    and "encode_zone le (py_strip (Zone_Name inp)) = encode_zone le (py_strip z0)"
  shows "predict_body st (inp\<lparr>Zone_Name := z0\<rparr>) = predict_body st inp"
  using assms
  by (simp add: predict_body_def input_features_def and_then_def split: sum.splits)

lemma encode_zone_unknown:
  assumes "zone_name \<notin> set (classes le_zone)"
  shows "encode_zone le_zone zone_name = 0"
  using assms by (simp add: encode_zone_def)

lemma encode_zone_raising: "encode_zone (le\<lparr>transform := (\<lambda>z. Inl e)\<rparr>) zone_name = 0"
  by (simp add: encode_zone_def)

lemma dict_get_Cons_other:
  "k \<noteq> key \<Longrightarrow> dict_get ((k, v) # kv) key dflt = dict_get kv key dflt"
  by (simp add: dict_get_def)

lemma load_failure_raises:
  assumes "(\<exists>e. load_model st = Inl e) \<or> (\<exists>e. load_encoder st = Inl e)
         \<or> (\<exists>e. load_scaler st = Inl e) \<or> (\<exists>e. load_columns st = Inl e)"
  shows "\<exists>e. predict_body st inp = Inl e"
  using assms
  by (cases "load_model st"; cases "load_encoder st"; cases "load_scaler st";
      cases "load_columns st") (auto simp: predict_body_def and_then_simps)

section \<open>The feature frame\<close>

text \<open>
  Adding the missing columns and selecting the expected ones gives, for each expected
  column, the value of the initial mapping or 0.
\<close>

lemma map_of_add_missing:
  "map_of (add_missing cols df) c =
     (if c \<in> set cols \<and> map_of df c = None then Some (PInt 0) else map_of df c)"
proof (induction cols arbitrary: df)
  case Nil
  then show ?case by simp
next
  case (Cons col cols)
  show ?case
  proof (cases "col \<in> set (map fst df)")
    case True
    then have "map_of df col \<noteq> None" by (simp add: map_of_eq_None_iff)
    then show ?thesis using True by (auto simp: Cons.IH)
  next
    case False
    then have "map_of df col = None" by (simp add: map_of_eq_None_iff)
    then show ?thesis using False by (auto simp: Cons.IH map_add_def split: option.splits)
  qed
qed

lemma select_columns_total:
  assumes "\<forall>c \<in> set cols. map_of df c \<noteq> None"
  shows "select_columns df cols = Inr (map (\<lambda>c. (c, the (map_of df c))) cols)"
  using assms by (induction cols) (auto simp: and_then_simps)

lemma build_frame_value:
  "build_frame expected_columns feats =
     Inr (map (\<lambda>col. (col, case map_of feats col of None \<Rightarrow> PInt 0 | Some v \<Rightarrow> v))
            expected_columns)"
proof -
  let ?df = "add_missing expected_columns feats"
  have present: "\<forall>c \<in> set expected_columns. map_of ?df c \<noteq> None"
    by (auto simp: map_of_add_missing)
  have val: "the (map_of ?df c) = (case map_of feats c of None \<Rightarrow> PInt 0 | Some v \<Rightarrow> v)"
    if "c \<in> set expected_columns" for c
    using that by (auto simp: map_of_add_missing)
  have "select_columns ?df expected_columns
          = Inr (map (\<lambda>c. (c, the (map_of ?df c))) expected_columns)"
    by (rule select_columns_total[OF present])
  also have "map (\<lambda>c. (c, the (map_of ?df c))) expected_columns
      = map (\<lambda>col. (col, case map_of feats col of None \<Rightarrow> PInt 0 | Some v \<Rightarrow> v)) expected_columns"
    by (rule map_cong) (simp_all add: val)
  finally show ?thesis by (simp add: build_frame_def)
qed

lemma map_of_tabulate:
  "map_of (map (\<lambda>k. (k, f k)) ks) k = (if k \<in> set ks then Some (f k) else None)"
  by (induction ks) auto

lemma build_frame_lookup:
  "\<exists>df. build_frame expected_columns feats = Inr df
     \<and> map_of df col =
         (if col \<in> set expected_columns
          then Some (case map_of feats col of None \<Rightarrow> PInt 0 | Some v \<Rightarrow> v) else None)"
  by (simp add: build_frame_value map_of_tabulate)

section \<open>The range of the predicted count\<close>

text \<open>
  For counts that a float holds exactly, the clamp does what its comment says. In a
  success response whose covered count is at most \<open>2 ^ 53\<close>,
  \<open>0 \<le> predicted_households \<le> covered_households\<close>, on the model path and on the
  fallback path alike: the prediction is bounded by \<^verbatim>\<open>float(covered)\<close>, which is the
  count itself up to \<open>2 ^ 53\<close>.
\<close>

lemma clamp_invariant_upto_2p53:
  assumes "predict_route st data = Ok200 p i" and "input_covered_households i \<le> 2 ^ 53"
  shows "0 \<le> predicted_households p \<and> predicted_households p \<le> input_covered_households i"
proof -
  from predict_route_Ok200[OF assms(1)] obtain kv t c z where
    v: "get_and_validate kv = Inr (t, c, z)" and
    r: "respond st t c (default_zone (unique_zones st) z) = Ok200 p i" by blast
  from respond_Ok200[OF r] obtain pred_count where
    ps: "predict_segregation st (make_input_data t c (default_zone (unique_zones st) z)) = Inr pred_count"
    and n: "int_of_float pred_count = Inr (predicted_households p)"
    and i: "input_covered_households i = c" by auto
  have c0: "0 \<le> c" by (rule get_and_validate_Inr(5)[OF v])
  from predict_segregation_range[OF ps] c0 obtain x where
    x: "pred_count = Fin x" "0 \<le> x" "x \<le> rne (of_int c)"
    by (auto simp: make_input_data_def)
  have "\<bar>c\<bar> \<le> 2 ^ 53" using c0 assms(2) i by simp
  then have "rne (of_int c) = of_int c" by (rule rne_of_int)
  with x have "x \<le> of_int c" by simp
  then have "\<lfloor>x\<rfloor> \<le> c" by (simp add: floor_le_iff)
  moreover have "0 \<le> \<lfloor>x\<rfloor>" using x(2) by simp
  moreover have "predicted_households p = \<lfloor>x\<rfloor>" using n x by simp
  ultimately show ?thesis by (simp add: i)
qed

lemma ilog2_nonneg:
  assumes "1 \<le> x"
  shows "0 \<le> ilog2 x"
proof -
  have x: "0 < x" using assms by simp
  have "(2::rat) powi 0 \<le> x" using assms by simp
  also have "x < 2 powi (ilog2 x + 1)" by (rule ilog2_bounds(2)[OF x])
  finally have lt: "(2::rat) powi 0 < 2 powi (ilog2 x + 1)" .
  show ?thesis
  proof (rule ccontr)
    assume "\<not> 0 \<le> ilog2 x"
    then have "ilog2 x + 1 \<le> 0" by simp
    then have "(2::rat) powi (ilog2 x + 1) \<le> 2 powi 0" by (rule powi2_mono)
    with lt show False by simp
  qed
qed

lemma rne_rel_upper:
  assumes "1 \<le> x"
  shows "rne x \<le> x * (1 + 1 / 2 ^ 53)"
proof -
  have x: "0 < x" using assms by simp
  define q :: rat where "q = 2 powi qexp x"
  have q0: "0 < q" by (simp add: q_def)
  have qe: "qexp x = ilog2 x - 52" using ilog2_nonneg[OF assms] x by (simp add: qexp_def)
  have "q = 2 powi ilog2 x / 2 ^ 52"
    unfolding q_def qe using power_int_diff[of "2::rat" "ilog2 x" 52] by simp
  also have "\<dots> \<le> x / 2 ^ 52"
    using ilog2_bounds(1)[OF x] by (simp add: divide_right_mono)
  finally have qx: "q \<le> x / 2 ^ 52" .
  have "rne x = of_int (round_half_even (x / q)) * q"
    unfolding q_def by (rule rne_pos[OF x])
  also have "\<dots> \<le> (x / q + 1 / 2) * q"
    using rhe_upper[of "x / q"] q0 by (simp add: mult_right_mono)
  also have "\<dots> = x + q / 2" using q0 by (simp add: field_simps)
  also have "\<dots> \<le> x + (x / 2 ^ 52) / 2" using qx by simp
  also have "\<dots> = x * (1 + 1 / 2 ^ 53)" by (simp add: field_simps)
  finally show ?thesis .
qed

text \<open>
  The fallback estimate never exceeds the count, whatever its size: the two roundings
  of \<^verbatim>\<open>float(covered) * 0.7\<close> add less than the factor 0.7 takes away.
\<close>

lemma fallback_floor_le:
  assumes fb: "fallback inp = Inr (Fin r)" and c0: "0 \<le> Covered_Households inp"
  shows "0 \<le> r \<and> r \<le> of_int (Covered_Households inp)"
proof -
  define c where "c = Covered_Households inp"
  define k :: rat where "k = 3152519739159347 / 4503599627370496"
  define eps :: rat where "eps = 1 / 2 ^ 53"
  from fallback_range[OF fb c0] have r: "0 \<le> r" "r \<le> rne (of_int c)"
    by (simp_all add: c_def)
  show ?thesis
  proof (cases "c \<le> 2 ^ 53")
    case True
    then have "rne (of_int c) = of_int c" using c0 by (intro rne_of_int) (simp add: c_def)
    with r show ?thesis by (simp add: c_def)
  next
    case False
    then have big: "2 ^ 53 \<le> c" by simp
    from fb obtain cf where
      cf: "float_of_int c = Inr cf" and p: "Fin r = fmul cf f0_7"
      unfolding fallback_def and_then_Inr c_def by auto
    define x where "x = rne (of_int c)"
    from float_of_int_Inr[OF cf] have cfv: "cf = Fin x" by (simp add: x_def)
    have "r = rne (x * k)"
      using p rnd64_eq_Fin(1)[of "x * k" r] by (simp add: cfv f0_7_val k_def)
    have c1: "(1::rat) \<le> of_int c" using big by simp
    have "(of_int (2 ^ 53) :: rat) \<le> of_int c" using big by (simp only: of_int_le_iff)
    then have "rne (of_int (2 ^ 53)) \<le> x" unfolding x_def by (rule rne_mono)
    moreover have "rne (of_int (2 ^ 53)) = (of_int (2 ^ 53) :: rat)" by (rule rne_of_int) simp
    ultimately have x53: "2 ^ 53 \<le> x" by simp
    have xu: "x \<le> of_int c * (1 + eps)" unfolding x_def eps_def by (rule rne_rel_upper[OF c1])
    have k_lo: "1 / 2 \<le> k" by (simp add: k_def)
    have "1 \<le> (2 ^ 53 :: rat) * (1 / 2)" by simp
    also have "\<dots> \<le> x * k" using x53 k_lo by (intro mult_mono) simp_all
    finally have xk1: "1 \<le> x * k" .
    have "r \<le> (x * k) * (1 + eps)"
      unfolding \<open>r = rne (x * k)\<close> eps_def by (rule rne_rel_upper[OF xk1])
    also have "\<dots> \<le> (of_int c * (1 + eps) * k) * (1 + eps)"
      using xu by (intro mult_right_mono) (simp_all add: k_def eps_def)
    also have "\<dots> = of_int c * (k * (1 + eps) * (1 + eps))" by (simp add: algebra_simps)
    also have "\<dots> \<le> of_int c * 1"
    proof (rule mult_left_mono)
      show "k * (1 + eps) * (1 + eps) \<le> 1" by (simp add: k_def eps_def)
      show "(0::rat) \<le> of_int c" using c1 by simp
    qed
    finally have "r \<le> of_int c" by simp
    with r show ?thesis by (simp add: c_def)
  qed
qed

text \<open>
  So a success response that comes from the fallback keeps the invariant for every
  count.
\<close>

lemma fallback_within_covered:
  assumes ok: "predict_route st data = Ok200 p i"
    and raised: "predict_body st
        (make_input_data (input_total_households i) (input_covered_households i)
           (input_zone_name i)) = Inl e"
  shows "0 \<le> predicted_households p \<and> predicted_households p \<le> input_covered_households i"
proof -
  from predict_route_Ok200[OF ok] obtain kv t c z where
    v: "get_and_validate kv = Inr (t, c, z)" and
    r: "respond st t c (default_zone (unique_zones st) z) = Ok200 p i" by blast
  let ?z = "default_zone (unique_zones st) z"
  from respond_Ok200[OF r] obtain pred_count where
    ps: "predict_segregation st (make_input_data t c ?z) = Inr pred_count"
    and n: "int_of_float pred_count = Inr (predicted_households p)"
    and i: "i = \<lparr>input_total_households = t, input_covered_households = c,
                   input_zone_name = ?z\<rparr>" by auto
  have c0: "0 \<le> c" by (rule get_and_validate_Inr(5)[OF v])
  have b: "predict_body st (make_input_data t c ?z) = Inl e" using raised by (simp add: i)
  have fb: "fallback (make_input_data t c ?z) = Inr pred_count"
    using ps by (simp add: predict_segregation_def b)
  from fallback_range[OF fb] c0 obtain x where x: "pred_count = Fin x"
    by (auto simp: make_input_data_def)
  from fallback_floor_le[OF fb[unfolded x]] c0 have xr: "0 \<le> x" "x \<le> of_int c"
    by (simp_all add: make_input_data_def)
  have "predicted_households p = \<lfloor>x\<rfloor>" using n x xr(1) by simp
  moreover have "\<lfloor>x\<rfloor> \<le> c" using xr(2) by (simp add: floor_le_iff)
  moreover have "0 \<le> \<lfloor>x\<rfloor>" using xr(1) by simp
  ultimately show ?thesis by (simp add: i)
qed

section \<open>The claims\<close>

text \<open>
  Claim C1, as the code has it. In a success response the rate is
  \<^verbatim>\<open>round((pred_count / total) * 100, 2)\<close> for the float \<open>pred_count\<close> that
  \<^verbatim>\<open>predict_segregation\<close> returned for this request, before it is truncated;
  \<open>predicted_households\<close> is \<^verbatim>\<open>int(pred_count)\<close>. The rate is therefore computed
  from the untruncated estimate, not from the integer in the response.
\<close>

theorem rate_from_untruncated_estimate:
  assumes "predict_route st data = Ok200 p i"
  shows "\<exists>pred_count x y.
      predict_segregation st
        (make_input_data (input_total_households i) (input_covered_households i)
           (input_zone_name i)) = Inr pred_count
    \<and> int_of_float pred_count = Inr (predicted_households p)
    \<and> truediv_int pred_count (input_total_households i) = Inr x
    \<and> mul_int x 100 = Inr y
    \<and> segregation_rate p = py_round2 y"
proof -
  from predict_route_Ok200[OF assms] obtain kv t c z where
    v: "get_and_validate kv = Inr (t, c, z)" and
    r: "respond st t c (default_zone (unique_zones st) z) = Ok200 p i" by blast
  have t: "0 < t" by (rule get_and_validate_Inr(4)[OF v])
  from respond_Ok200[OF r] obtain pred_count where
    ps: "predict_segregation st (make_input_data t c (default_zone (unique_zones st) z)) = Inr pred_count"
    and rt: "rate_of pred_count t = Inr (segregation_rate p)"
    and n: "int_of_float pred_count = Inr (predicted_households p)"
    and i: "i = \<lparr>input_total_households = t, input_covered_households = c,
                 input_zone_name = default_zone (unique_zones st) z\<rparr>" by auto
  from rt t obtain x y where "truediv_int pred_count t = Inr x" "mul_int x 100 = Inr y"
    "segregation_rate p = py_round2 y"
    by (auto simp: rate_of_def and_then_Inr)
  with ps n show ?thesis by (auto simp: i)
qed

text \<open>
  With no artifacts, 10 households of which 5 are covered give the estimate 3.5: the
  response carries the count 3 and the rate 35.0.
\<close>

theorem rate_from_untruncated_estimate_witness:
  "predict_route failing_store
     (BObject [(''total_households'', JInt 10), (''covered_households'', JInt 5)])
   = Ok200 \<lparr>segregation_rate = Fin 35, predicted_households = 3, model_used = ''XGBoost''\<rparr>
       \<lparr>input_total_households = 10, input_covered_households = 5, input_zone_name = ''Unknown''\<rparr>
   \<and> (\<exists>pred_count x y.
      predict_segregation failing_store (make_input_data 10 5 ''Unknown'') = Inr pred_count
    \<and> int_of_float pred_count = Inr 3
    \<and> truediv_int pred_count 10 = Inr x
    \<and> mul_int x 100 = Inr y
    \<and> Fin 35 = py_round2 y)"
  using rate_from_untruncated_estimate[OF route_fallback_10_5] route_fallback_10_5
  by simp

text \<open>
  For that request the rate computed from the returned integer,
  \<^verbatim>\<open>round(3 / 10 * 100, 2)\<close>, is 30.0, while the response says 35.0.
\<close>

theorem rate_not_from_integer_count:
  "predict_route failing_store
     (BObject [(''total_households'', JInt 10), (''covered_households'', JInt 5)])
   = Ok200 \<lparr>segregation_rate = Fin 35, predicted_households = 3, model_used = ''XGBoost''\<rparr>
       \<lparr>input_total_households = 10, input_covered_households = 5, input_zone_name = ''Unknown''\<rparr>
   \<and> rate_of (Fin 3) 10 = Inr (Fin 30)"
  using route_fallback_10_5 rate_of_3_10 by simp

text \<open>
  Claim C2, as the code has it. For a request that passes validation and whose total
  converts to a float: when a load of the model, the encoder, the scaler or the column
  list fails, or the body of \<^verbatim>\<open>predict_segregation\<close>'s \<^verbatim>\<open>try\<close> raises in any other
  way (the scaler or the model raises when invoked), the response is still a success,
  and its \<open>predicted_households\<close> is \<^verbatim>\<open>int(float(covered) * 0.7)\<close>: the float
  product is truncated, not rounded. An exception of the encoder's \<open>transform\<close> is not
  such a failure: the inner handler turns it into the zone code 0 and the model is
  asked (\<open>raising_encoder_keeps_model_path\<close>).
\<close>

theorem fallback_truncates:
  assumes v: "get_and_validate kv = Inr (t, c, z)"
    and fail: "(\<exists>e. load_model st = Inl e) \<or> (\<exists>e. load_encoder st = Inl e)
       \<or> (\<exists>e. load_scaler st = Inl e) \<or> (\<exists>e. load_columns st = Inl e)
       \<or> (\<exists>e. predict_body st (make_input_data t c (default_zone (unique_zones st) z)) = Inl e)"
    and conv: "float_of_int t = Inr tf"
  shows "\<exists>cf r rate. float_of_int c = Inr (Fin cf) \<and> fmul (Fin cf) f0_7 = Fin r \<and> 0 \<le> r
    \<and> predict_route st (BObject kv)
        = Ok200 \<lparr>segregation_rate = rate, predicted_households = \<lfloor>r\<rfloor>,
                  model_used = ''XGBoost''\<rparr>
            \<lparr>input_total_households = t, input_covered_households = c,
             input_zone_name = default_zone (unique_zones st) z\<rparr>"
proof -
  let ?z = "default_zone (unique_zones st) z"
  note g = get_and_validate_Inr[OF v]
  from fail load_failure_raises[of st "make_input_data t c ?z"]
  obtain e where raised: "predict_body st (make_input_data t c ?z) = Inl e" by blast
  from fallback_value[OF g(5) g(6) conv, of ?z] obtain cf r where
    cf: "float_of_int c = Inr (Fin cf)" and r: "fmul (Fin cf) f0_7 = Fin r" "0 \<le> r"
    and fb: "fallback (make_input_data t c ?z) = Inr (Fin r)" by blast
  have ps: "predict_segregation st (make_input_data t c ?z) = Inr (Fin r)"
    by (simp add: predict_segregation_def raised fb)
  from rate_of_defined[OF g(4) conv, of r] obtain rate where
    rate: "rate_of (Fin r) t = Inr rate" by blast
  have kv: "kv \<noteq> []" using g(1) g(4) by (auto simp: dict_get_def)
  have "predict_route st (BObject kv)
      = Ok200 \<lparr>segregation_rate = rate, predicted_households = \<lfloor>r\<rfloor>, model_used = ''XGBoost''\<rparr>
          \<lparr>input_total_households = t, input_covered_households = c, input_zone_name = ?z\<rparr>"
    using kv r(2) by (simp add: predict_route_def v respond_def ps rate and_then_simps)
  with cf r show ?thesis by blast
qed

text \<open>
  With no artifacts, 4 households out of 4: the loads fail and the response is a
  success.
\<close>

theorem fallback_truncates_witness:
  "get_and_validate [(''total_households'', JInt 4), (''covered_households'', JInt 4)]
     = Inr (4, 4, [])
   \<and> load_model failing_store = Inl ArtifactError
   \<and> float_of_int 4 = Inr (Fin 4)
   \<and> (\<exists>cf r rate. float_of_int 4 = Inr (Fin cf) \<and> fmul (Fin cf) f0_7 = Fin r \<and> 0 \<le> r
    \<and> predict_route failing_store
          (BObject [(''total_households'', JInt 4), (''covered_households'', JInt 4)])
        = Ok200 \<lparr>segregation_rate = rate, predicted_households = \<lfloor>r\<rfloor>,
                  model_used = ''XGBoost''\<rparr>
            \<lparr>input_total_households = 4, input_covered_households = 4,
             input_zone_name = default_zone (unique_zones failing_store) []\<rparr>)"
proof -
  have m: "load_model failing_store = Inl ArtifactError" by (simp add: failing_store_def)
  then have b: "(\<exists>e. load_model failing_store = Inl e) \<or> (\<exists>e. load_encoder failing_store = Inl e)
       \<or> (\<exists>e. load_scaler failing_store = Inl e) \<or> (\<exists>e. load_columns failing_store = Inl e)
       \<or> (\<exists>e. predict_body failing_store
                 (make_input_data 4 4 (default_zone (unique_zones failing_store) [])) = Inl e)"
    by blast
  have f: "float_of_int 4 = Inr (Fin 4)" by (simp add: float_of_int_numeral)
  from fallback_truncates[OF validate_4_4 b f] validate_4_4 m f show ?thesis by blast
qed

text \<open>
  For that request \<^verbatim>\<open>0.7 * 4\<close> is the float 2.8 (more exactly
  2.79999999999999982). The response carries 2, and \<^verbatim>\<open>round(0.7 * 4)\<close> is 3.
\<close>

theorem fallback_is_not_rounded:
  "predict_route failing_store
     (BObject [(''total_households'', JInt 4), (''covered_households'', JInt 4)])
   = Ok200 \<lparr>segregation_rate = Fin 70, predicted_households = 2, model_used = ''XGBoost''\<rparr>
       \<lparr>input_total_households = 4, input_covered_households = 4, input_zone_name = ''Unknown''\<rparr>
   \<and> py_round (fmul f0_7 (Fin 4)) = Inr 3"
proof -
  have "py_round (fmul f0_7 (Fin 4)) = Inr 3"
    by (simp add: f0_7_val rnd64_07_times_4 round_half_even_def floor_rat_numeral)
  with route_fallback_4_4 show ?thesis by simp
qed

text \<open>
  Claim C3. The clamp \<^verbatim>\<open>max(0, min(pred, covered_households))\<close> of
  \<^verbatim>\<open>predict_segregation\<close> bounds the prediction by \<^verbatim>\<open>float(covered)\<close>, not by the
  count. Beyond \<open>2 ^ 53\<close> the float may exceed the count: \<open>2 ^ 54 + 3\<close> becomes the
  float \<open>2 ^ 54 + 4\<close>. With a model that predicts above it, a valid request is
  answered with a success whose \<open>predicted_households\<close> is one more than its
  \<open>covered_households\<close>: the invariant \<open>predicted_households \<le> covered_households\<close>
  is broken on the model path. (It holds on both paths for counts up to \<open>2 ^ 53\<close>,
  \<open>clamp_invariant_upto_2p53\<close>, and on the fallback path for every count,
  \<open>fallback_within_covered\<close>.)
\<close>

theorem clamp_exceeded_beyond_2p53:
  "predict_route (sample_store overshooting_model)
     (BObject [(''total_households'', JInt 18014398509481987),
               (''covered_households'', JInt 18014398509481987),
               (''zone_name'', JStr ''Adyar'')])
   = Ok200 \<lparr>segregation_rate = Fin 100, predicted_households = 18014398509481988,
             model_used = ''XGBoost''\<rparr>
       \<lparr>input_total_households = 18014398509481987,
        input_covered_households = 18014398509481987, input_zone_name = ''Adyar''\<rparr>
   \<and> \<not> (18014398509481988 \<le> (18014398509481987::int))"
  using route_overshoot by simp




text \<open>
  Claim C5. A zone name that, once trimmed, is not among the encoder's classes gets the
  code 0, and \<^verbatim>\<open>predict_segregation\<close> returns for it what it returns for any zone
  whose code is 0. The encoding raises nothing: with an encoder whose \<open>transform\<close>
  always raises, the code is 0 as well.
\<close>

theorem unknown_zone_code_0:
  assumes "load_encoder st = Inr le"
    and "py_strip (Zone_Name inp) \<notin> set (classes le)"
    and "encode_zone le (py_strip z0) = 0"
  shows "encode_zone le (py_strip (Zone_Name inp)) = 0
       \<and> predict_segregation st inp = predict_segregation st (inp\<lparr>Zone_Name := z0\<rparr>)
       \<and> encode_zone (le\<lparr>transform := (\<lambda>z. Inl e)\<rparr>) zone_name = 0"
proof -
  have u: "encode_zone le (py_strip (Zone_Name inp)) = 0"
    by (rule encode_zone_unknown[OF assms(2)])
  then have pb: "predict_body st (inp\<lparr>Zone_Name := z0\<rparr>) = predict_body st inp"
    using assms(3) by (intro predict_body_zone[OF assms(1)]) simp
  have fb: "fallback (inp\<lparr>Zone_Name := z0\<rparr>) = fallback inp"
    by (simp add: fallback_def)
  have "predict_segregation st (inp\<lparr>Zone_Name := z0\<rparr>) = predict_segregation st inp"
    unfolding predict_segregation_def pb fb ..
  with u encode_zone_raising show ?thesis by simp
qed

text \<open>
  The sample encoder gives Adyar the code 0 and does not know the zone "Nowhere".
\<close>

theorem unknown_zone_code_0_witness:
  "load_encoder (sample_store overshooting_model) = Inr sample_encoder
   \<and> py_strip (Zone_Name (make_input_data 8 4 ''Nowhere'')) \<notin> set (classes sample_encoder)
   \<and> encode_zone sample_encoder (py_strip ''Adyar'') = 0
   \<and> encode_zone sample_encoder (py_strip (Zone_Name (make_input_data 8 4 ''Nowhere''))) = 0
   \<and> predict_segregation (sample_store overshooting_model) (make_input_data 8 4 ''Nowhere'')
     = predict_segregation (sample_store overshooting_model)
         ((make_input_data 8 4 ''Nowhere'')\<lparr>Zone_Name := ''Adyar''\<rparr>)
   \<and> encode_zone (sample_encoder\<lparr>transform := (\<lambda>z. Inl ValueError)\<rparr>) ''Adyar'' = 0"
proof -
  have a: "load_encoder (sample_store overshooting_model) = Inr sample_encoder"
    by (simp add: sample_store_def)
  have b: "py_strip (Zone_Name (make_input_data 8 4 ''Nowhere'')) \<notin> set (classes sample_encoder)"
    by (simp add: make_input_data_def py_strip_def is_space_def sample_encoder_def)
  have c: "encode_zone sample_encoder (py_strip ''Adyar'') = 0"
    by (simp add: py_strip_def is_space_def sample_encoder_def encode_zone_def)
  from unknown_zone_code_0[OF a b c, of ValueError "''Adyar''"] a b c show ?thesis by simp
qed

text \<open>
  Claim C6, as the code has it. The route never reads a ward number: a further key in
  the request (one that is not among the three keys the route reads) leaves the response
  unchanged, and in the frame built for a request the \<^verbatim>\<open>'Ward No.'\<close> column (when
  the column list has it) is always 1. \<^verbatim>\<open>predict_segregation\<close> itself takes the feature from
  \<^verbatim>\<open>input_data\<close> and uses 1 when the key is absent.
\<close>

theorem ward_feature_fixed_by_route:
  assumes "k \<noteq> ''total_households''" "k \<noteq> ''covered_households''" "k \<noteq> ''zone_name''"
    and "kv \<noteq> []"
  shows "predict_route st (BObject ((k, v) # kv)) = predict_route st (BObject kv)
       \<and> (\<exists>input_df.
            build_frame cols (input_features tf cf zid (make_input_data t c z)) = Inr input_df
          \<and> map_of input_df ''Ward No.''
              = (if ''Ward No.'' \<in> set cols then Some (PInt 1) else None))
       \<and> map_of (input_features tf cf zid (inp\<lparr>Ward_No := Some w\<rparr>)) ''Ward No.'' = Some (PInt w)
       \<and> map_of (input_features tf cf zid (inp\<lparr>Ward_No := None\<rparr>)) ''Ward No.'' = Some (PInt 1)"
proof -
  have d: "dict_get ((k, v) # kv) ''total_households'' dflt = dict_get kv ''total_households'' dflt"
    "dict_get ((k, v) # kv) ''covered_households'' dflt = dict_get kv ''covered_households'' dflt"
    "dict_get ((k, v) # kv) ''zone_name'' dflt = dict_get kv ''zone_name'' dflt" for dflt
    using assms(1-3) by (simp_all add: dict_get_Cons_other)
  have "get_and_validate ((k, v) # kv) = get_and_validate kv"
    unfolding get_and_validate_def d ..
  then have "predict_route st (BObject ((k, v) # kv)) = predict_route st (BObject kv)"
    using assms(4) by (simp add: predict_route_def)
  moreover have "\<exists>input_df.
        build_frame cols (input_features tf cf zid (make_input_data t c z)) = Inr input_df
      \<and> map_of input_df ''Ward No.''
          = (if ''Ward No.'' \<in> set cols then Some (PInt 1) else None)"
  proof -
    have m: "map_of (input_features tf cf zid (make_input_data t c z)) ''Ward No.'' = Some (PInt 1)"
      by (simp add: input_features_def make_input_data_def)
    from build_frame_lookup[of cols "input_features tf cf zid (make_input_data t c z)" "''Ward No.''"]
    obtain input_df where
      "build_frame cols (input_features tf cf zid (make_input_data t c z)) = Inr input_df"
      "map_of input_df ''Ward No.''
         = (if ''Ward No.'' \<in> set cols then Some (PInt 1) else None)"
      unfolding m by auto
    then show ?thesis by blast
  qed
  ultimately show ?thesis by (simp add: input_features_def)
qed

text \<open>
  A request with \<^verbatim>\<open>ward_number\<close> 7 is answered as the request without it.
\<close>

theorem ward_feature_fixed_by_route_witness:
  "''ward_number'' \<noteq> ''total_households'' \<and> ''ward_number'' \<noteq> ''covered_households''
   \<and> ''ward_number'' \<noteq> ''zone_name''
   \<and> [(''total_households'', JInt 4), (''covered_households'', JInt 4)] \<noteq> []
   \<and> predict_route failing_store
        (BObject [(''ward_number'', JInt 7), (''total_households'', JInt 4),
                  (''covered_households'', JInt 4)])
     = predict_route failing_store
        (BObject [(''total_households'', JInt 4), (''covered_households'', JInt 4)])
   \<and> (\<exists>input_df.
        build_frame [''Total_Households'', ''Covered_Households'', ''Zone_ID'', ''Ward No.'']
          (input_features (Fin 4) (Fin 4) 0 (make_input_data 4 4 ''Unknown'')) = Inr input_df
      \<and> map_of input_df ''Ward No.'' = Some (PInt 1))
   \<and> map_of (input_features (Fin 4) (Fin 4) 0
        ((make_input_data 4 4 ''Unknown'')\<lparr>Ward_No := Some 7\<rparr>)) ''Ward No.'' = Some (PInt 7)
   \<and> map_of (input_features (Fin 4) (Fin 4) 0
        ((make_input_data 4 4 ''Unknown'')\<lparr>Ward_No := None\<rparr>)) ''Ward No.'' = Some (PInt 1)"
proof -
  have a: "''ward_number'' \<noteq> ''total_households''" "''ward_number'' \<noteq> ''covered_households''"
    "''ward_number'' \<noteq> ''zone_name''" by simp_all
  have b: "[(''total_households'', JInt 4), (''covered_households'', JInt 4)] \<noteq> []" by simp
  from ward_feature_fixed_by_route[OF a b, where st = failing_store and v = "JInt 7"
      and tf = "Fin 4" and cf = "Fin 4" and zid = 0 and t = 4 and c = 4 and z = "''Unknown''"
      and inp = "make_input_data 4 4 ''Unknown''" and w = 7
      and cols = "[''Total_Households'', ''Covered_Households'', ''Zone_ID'', ''Ward No.'']"] a b
  show ?thesis by simp
qed

text \<open>
  The request gives the ward number 7, and the model returns the \<^verbatim>\<open>Ward No.\<close>
  feature it receives: the prediction is 1. Called with \<^verbatim>\<open>'Ward No.'\<close> 7,
  \<^verbatim>\<open>predict_segregation\<close> returns 7.
\<close>

theorem ward_number_not_read:
  "dict_get ward_body ''ward_number'' JNull = JInt 7
   \<and> predict_route (sample_store ward_model) (BObject ward_body)
     = Ok200 \<lparr>segregation_rate = Fin (25 / 2), predicted_households = 1,
               model_used = ''XGBoost''\<rparr>
         \<lparr>input_total_households = 8, input_covered_households = 8, input_zone_name = ''Adyar''\<rparr>
   \<and> predict_segregation (sample_store ward_model)
       \<lparr>Total_Households = 8, Covered_Households = 8, Zone_Name = ''Adyar'', Ward_No = Some 7\<rparr>
     = Inr (Fin 7)"
  using route_ward_body segregation_ward_7 by (simp add: dict_get_def ward_body_def)

text \<open>
  Claim C7. Whatever the initial mapping, building the frame handed to the scaler never
  raises, and the frame has exactly the names of the expected-columns list, in its
  order: each column holds the value the mapping has for it, and 0 when the mapping
  lacks it; a key of the mapping that is not in the list is dropped.
\<close>

theorem frame_follows_schema:
  "\<exists>input_df. build_frame expected_columns feats = Inr input_df
     \<and> map fst input_df = expected_columns
     \<and> map snd input_df =
         map (\<lambda>col. case map_of feats col of None \<Rightarrow> PInt 0 | Some v \<Rightarrow> v) expected_columns"
proof -
  let ?df = "map (\<lambda>col. (col, case map_of feats col of None \<Rightarrow> PInt 0 | Some v \<Rightarrow> v))
               expected_columns"
  have "build_frame expected_columns feats = Inr ?df" by (rule build_frame_value)
  moreover have "map fst ?df = expected_columns" by (simp add: comp_def)
  moreover have "map snd ?df =
      map (\<lambda>col. case map_of feats col of None \<Rightarrow> PInt 0 | Some v \<Rightarrow> v) expected_columns"
    by (simp add: comp_def)
  ultimately show ?thesis by blast
qed

text \<open>
  Claim C8, as the code has it. When the zone name is omitted, or is a string that is
  blank once trimmed, and the counts are valid, the route goes on to the prediction
  with the first entry of \<^verbatim>\<open>_unique_zones\<close>, the zone names read from
  \<^verbatim>\<open>Data.csv\<close> when the module is loaded, or with \<^verbatim>\<open>"Unknown"\<close> when that list is
  empty. The classes of the zone encoder play no part in the substitution. The request
  is not rejected.
\<close>

theorem blank_zone_defaulted:
  assumes "map_of kv ''zone_name'' = None
         \<or> (\<exists>s. map_of kv ''zone_name'' = Some (JStr s) \<and> py_strip s = [])"
      and "py_int (dict_get kv ''total_households'' (JInt 0)) = Inr t"
      and "py_int (dict_get kv ''covered_households'' (JInt 0)) = Inr c"
      and "0 < t" and "0 \<le> c" and "c \<le> t"
  shows "predict_route st (BObject kv)
           = respond st t c (if unique_zones st \<noteq> [] then hd (unique_zones st) else ''Unknown'')
       \<and> predict_route st (BObject kv) \<noteq> Err400 msg"
proof -
  have blank: "py_strip (py_str (dict_get kv ''zone_name'' (JStr []))) = []"
    using assms(1) by (auto simp: dict_get_def py_strip_def)
  have kv: "kv \<noteq> []" using assms(2,4) by (auto simp: dict_get_def)
  have v: "get_and_validate kv = Inr (t, c, [])"
    using assms(2-6) blank by (simp add: get_and_validate_def)
  have r: "predict_route st (BObject kv)
           = respond st t c (if unique_zones st \<noteq> [] then hd (unique_zones st) else ''Unknown'')"
    using kv by (simp add: predict_route_def v default_zone_def)
  have "respond st t c z \<noteq> Err400 msg" for z
    by (auto simp: respond_def and_then_def split: sum.splits)
  with r show ?thesis by simp
qed

text \<open>
  A zone name of two spaces: the response is the one for Adyar, the first zone of the
  sample store.
\<close>

theorem blank_zone_defaulted_witness:
  "(map_of [(''total_households'', JInt 8), (''covered_households'', JInt 4),
            (''zone_name'', JStr ''  '')] ''zone_name'' = None
    \<or> (\<exists>s. map_of [(''total_households'', JInt 8), (''covered_households'', JInt 4),
            (''zone_name'', JStr ''  '')] ''zone_name'' = Some (JStr s) \<and> py_strip s = []))
   \<and> (0::int) < 8 \<and> (0::int) \<le> 4 \<and> (4::int) \<le> 8
   \<and> predict_route (sample_store overshooting_model)
        (BObject [(''total_households'', JInt 8), (''covered_households'', JInt 4),
                  (''zone_name'', JStr ''  '')])
     = respond (sample_store overshooting_model) 8 4 ''Adyar''
   \<and> respond (sample_store overshooting_model) 8 4 ''Adyar''
     = Ok200 \<lparr>segregation_rate = Fin 50, predicted_households = 4, model_used = ''XGBoost''\<rparr>
         \<lparr>input_total_households = 8, input_covered_households = 4, input_zone_name = ''Adyar''\<rparr>
   \<and> predict_route (sample_store overshooting_model)
        (BObject [(''total_households'', JInt 8), (''covered_households'', JInt 4),
                  (''zone_name'', JStr ''  '')])
     \<noteq> Err400 ''Invalid input data''"
proof -
  let ?kv = "[(''total_households'', JInt 8), (''covered_households'', JInt 4),
              (''zone_name'', JStr ''  '')]"
  have a: "map_of ?kv ''zone_name'' = None
     \<or> (\<exists>s. map_of ?kv ''zone_name'' = Some (JStr s) \<and> py_strip s = [])"
    by (simp add: py_strip_def is_space_def)
  have b: "py_int (dict_get ?kv ''total_households'' (JInt 0)) = Inr 8"
    by (simp add: dict_get_def)
  have c: "py_int (dict_get ?kv ''covered_households'' (JInt 0)) = Inr 4"
    by (simp add: dict_get_def)
  have z: "(if unique_zones (sample_store overshooting_model) \<noteq> []
            then hd (unique_zones (sample_store overshooting_model)) else ''Unknown'') = ''Adyar''"
    by (simp add: sample_store_def)
  have n: "(0::int) < 8" "(0::int) \<le> 4" "(4::int) \<le> 8" by simp_all
  note t = blank_zone_defaulted[OF a b c n, of "sample_store overshooting_model"
      "''Invalid input data''", unfolded z]
  have t1: "predict_route (sample_store overshooting_model) (BObject ?kv)
          = respond (sample_store overshooting_model) 8 4 ''Adyar''"
    using t by simp
  have t2: "predict_route (sample_store overshooting_model) (BObject ?kv)
          \<noteq> Err400 ''Invalid input data''"
    using t by blast
  have r: "respond (sample_store overshooting_model) 8 4 ''Adyar''
     = Ok200 \<lparr>segregation_rate = Fin 50, predicted_households = 4, model_used = ''XGBoost''\<rparr>
         \<lparr>input_total_households = 8, input_covered_households = 4, input_zone_name = ''Adyar''\<rparr>"
    using t1 route_blank_zone by simp
  show ?thesis using a t1 t2 r by (intro conjI) simp_all
qed

text \<open>
  The encoder of this store knows Adyar and Anna Nagar, but no zone names were read
  from \<^verbatim>\<open>Data.csv\<close>: a blank zone name is replaced by \<^verbatim>\<open>"Unknown"\<close>, not by the
  first class of the encoder.
\<close>

theorem blank_zone_not_from_encoder:
  "load_encoder no_data_store = Inr sample_encoder
   \<and> classes sample_encoder = [''Adyar'', ''Anna Nagar'']
   \<and> unique_zones no_data_store = []
   \<and> predict_route no_data_store
        (BObject [(''total_households'', JInt 8), (''covered_households'', JInt 4),
                  (''zone_name'', JStr ''  '')])
     = Ok200 \<lparr>segregation_rate = Fin 50, predicted_households = 4, model_used = ''XGBoost''\<rparr>
         \<lparr>input_total_households = 8, input_covered_households = 4,
          input_zone_name = ''Unknown''\<rparr>"
  using route_blank_zone_no_data
  by (simp add: no_data_store_def sample_store_def sample_encoder_def)

text \<open>
  Claim C9. A request that passes validation has a positive total, so the division
  \<^verbatim>\<open>pred_count / total\<close> does not raise \<^verbatim>\<open>ZeroDivisionError\<close>, and the route
  never answers with that error.
\<close>

theorem no_division_by_zero:
  assumes "get_and_validate kv = Inr (t, c, z)"
  shows "0 < t \<and> truediv_int pred_count t \<noteq> Inl ZeroDivisionError
       \<and> predict_route st (BObject kv) \<noteq> Err500 msg (Some ZeroDivisionError)"
proof -
  note g = get_and_validate_Inr[OF assms]
  have kv: "kv \<noteq> []" using g(1) g(4) by (auto simp: dict_get_def)
  have "predict_route st (BObject kv) = respond st t c (default_zone (unique_zones st) z)"
    using kv by (simp add: predict_route_def assms)
  then show ?thesis
    using g(4) truediv_int_no_zero_division[OF g(4)] respond_no_zero_division by simp
qed

text \<open>
  The request with 4 households out of 4.
\<close>

theorem no_division_by_zero_witness:
  "get_and_validate [(''total_households'', JInt 4), (''covered_households'', JInt 4)]
     = Inr (4, 4, [])
   \<and> (0::int) < 4 \<and> truediv_int (Fin 2) 4 \<noteq> Inl ZeroDivisionError
   \<and> predict_route failing_store
        (BObject [(''total_households'', JInt 4), (''covered_households'', JInt 4)])
       \<noteq> Err500 ''Prediction failed'' (Some ZeroDivisionError)"
  using no_division_by_zero[OF validate_4_4, of "Fin 2" failing_store "''Prediction failed''"]
    validate_4_4 by simp

text \<open>
  Claim C10, as the code has it. A count missing from a non-empty request is read as 0,
  and both counts are converted before either is checked. So the answer to a non-empty
  request without a total depends on the covered count: the 400 for a total that is not
  positive when it converts to an integer, the 400 for invalid input data when its
  conversion raises \<^verbatim>\<open>ValueError\<close> or \<^verbatim>\<open>TypeError\<close>, and the 500 of the route's
  last handler when it raises \<^verbatim>\<open>OverflowError\<close>; a conversion raises nothing else.
  When the covered count is missing and the total converts to a positive integer, the
  route goes on to the prediction with 0 covered. No answer names a missing field; the
  empty object and \<^verbatim>\<open>null\<close> are answered as a body without data.
\<close>

theorem missing_count_defaults_to_zero:
  "(map_of kv ''total_households'' = None \<and> kv \<noteq> []
    \<and> py_int (dict_get kv ''covered_households'' (JInt 0)) = Inr c
    \<longrightarrow> predict_route st (BObject kv) = Err400 ''Total households must be greater than 0'')
   \<and> (map_of kv ''total_households'' = None
    \<and> (py_int (dict_get kv ''covered_households'' (JInt 0)) = Inl ValueError
       \<or> py_int (dict_get kv ''covered_households'' (JInt 0)) = Inl TypeError)
    \<longrightarrow> predict_route st (BObject kv) = Err400 ''Invalid input data'')
   \<and> (map_of kv ''total_households'' = None
    \<and> py_int (dict_get kv ''covered_households'' (JInt 0)) = Inl OverflowError
    \<longrightarrow> predict_route st (BObject kv) = Err500 ''An unexpected error occurred'' None)
   \<and> (py_int (dict_get kv ''covered_households'' (JInt 0)) = Inl e
    \<longrightarrow> e = ValueError \<or> e = TypeError \<or> e = OverflowError)
   \<and> (map_of kv ''covered_households'' = None
    \<and> py_int (dict_get kv ''total_households'' (JInt 0)) = Inr t \<and> 0 < t
    \<longrightarrow> predict_route st (BObject kv)
        = respond st t 0
            (default_zone (unique_zones st)
               (py_strip (py_str (dict_get kv ''zone_name'' (JStr []))))))
   \<and> predict_route st (BObject []) = Err400 ''No input data provided''
   \<and> predict_route st BNull = Err400 ''No input data provided''"
proof (intro conjI impI)
  assume "map_of kv ''total_households'' = None \<and> kv \<noteq> []
    \<and> py_int (dict_get kv ''covered_households'' (JInt 0)) = Inr c"
  then show "predict_route st (BObject kv) = Err400 ''Total households must be greater than 0''"
    by (auto simp: predict_route_def get_and_validate_def dict_get_def Let_def)
next
  assume a: "map_of kv ''total_households'' = None
    \<and> (py_int (dict_get kv ''covered_households'' (JInt 0)) = Inl ValueError
       \<or> py_int (dict_get kv ''covered_households'' (JInt 0)) = Inl TypeError)"
  then have "kv \<noteq> []" by (auto simp: dict_get_def)
  with a show "predict_route st (BObject kv) = Err400 ''Invalid input data''"
    by (auto simp: predict_route_def get_and_validate_def dict_get_def conversion_failed_def)
next
  assume a: "map_of kv ''total_households'' = None
    \<and> py_int (dict_get kv ''covered_households'' (JInt 0)) = Inl OverflowError"
  then have "kv \<noteq> []" by (auto simp: dict_get_def)
  with a show "predict_route st (BObject kv) = Err500 ''An unexpected error occurred'' None"
    by (auto simp: predict_route_def get_and_validate_def dict_get_def conversion_failed_def)
next
  assume "py_int (dict_get kv ''covered_households'' (JInt 0)) = Inl e"
  then show "e = ValueError \<or> e = TypeError \<or> e = OverflowError" by (rule py_int_Inl)
next
  assume "map_of kv ''covered_households'' = None
    \<and> py_int (dict_get kv ''total_households'' (JInt 0)) = Inr t \<and> 0 < t"
  then show "predict_route st (BObject kv)
        = respond st t 0
            (default_zone (unique_zones st)
               (py_strip (py_str (dict_get kv ''zone_name'' (JStr [])))))"
    by (auto simp: predict_route_def get_and_validate_def dict_get_def Let_def)
next
  show "predict_route st (BObject []) = Err400 ''No input data provided''"
    by (simp add: predict_route_def)
next
  show "predict_route st BNull = Err400 ''No input data provided''"
    by (simp add: predict_route_def)
qed

text \<open>
  Requests with only a covered count (3, then \<^verbatim>\<open>null\<close>, then an infinite float), and
  a request with only a total of 4.
\<close>

theorem missing_count_defaults_to_zero_witness:
  "map_of [(''covered_households'', JInt 3)] ''total_households'' = None
   \<and> py_int (dict_get [(''covered_households'', JInt 3)] ''covered_households'' (JInt 0)) = Inr 3
   \<and> predict_route failing_store (BObject [(''covered_households'', JInt 3)])
        = Err400 ''Total households must be greater than 0''
   \<and> py_int (dict_get [(''covered_households'', JNull)] ''covered_households'' (JInt 0))
        = Inl TypeError
   \<and> predict_route failing_store (BObject [(''covered_households'', JNull)])
        = Err400 ''Invalid input data''
   \<and> py_int (dict_get [(''covered_households'', JFloat PInf ''inf'')]
                ''covered_households'' (JInt 0)) = Inl OverflowError
   \<and> predict_route failing_store (BObject [(''covered_households'', JFloat PInf ''inf'')])
        = Err500 ''An unexpected error occurred'' None
   \<and> map_of [(''total_households'', JInt 4)] ''covered_households'' = None
   \<and> py_int (dict_get [(''total_households'', JInt 4)] ''total_households'' (JInt 0)) = Inr 4
   \<and> (0::int) < 4
   \<and> predict_route failing_store (BObject [(''total_households'', JInt 4)])
        = respond failing_store 4 0 ''Unknown''"
proof -
  have z: "default_zone (unique_zones failing_store)
      (py_strip (py_str (dict_get [(''total_households'', JInt 4)] ''zone_name'' (JStr []))))
      = ''Unknown''"
    by (simp add: default_zone_def failing_store_def dict_get_def py_strip_def)
  have a: "predict_route failing_store (BObject [(''covered_households'', JInt 3)])
        = Err400 ''Total households must be greater than 0''"
    using missing_count_defaults_to_zero[of "[(''covered_households'', JInt 3)]" 3
        failing_store TypeError 4]
    by (simp add: dict_get_def)
  have b: "predict_route failing_store (BObject [(''covered_households'', JNull)])
        = Err400 ''Invalid input data''"
    using missing_count_defaults_to_zero[of "[(''covered_households'', JNull)]" 3
        failing_store TypeError 4]
    by (simp add: dict_get_def)
  have c: "predict_route failing_store (BObject [(''covered_households'', JFloat PInf ''inf'')])
        = Err500 ''An unexpected error occurred'' None"
    using missing_count_defaults_to_zero[of "[(''covered_households'', JFloat PInf ''inf'')]" 3
        failing_store TypeError 4]
    by (simp add: dict_get_def)
  have d: "predict_route failing_store (BObject [(''total_households'', JInt 4)])
        = respond failing_store 4 0 ''Unknown''"
    using missing_count_defaults_to_zero[of "[(''total_households'', JInt 4)]" 3
        failing_store TypeError 4] z
    by (simp add: dict_get_def)
  show ?thesis using a b c d by (simp add: dict_get_def)
qed

text \<open>
  A request without a total whose covered count is the string "abc": the answer is
  the 400 for invalid input data, not the one for a total that is not positive.
\<close>

theorem missing_total_not_always_range_error:
  "map_of [(''covered_households'', JStr ''abc'')] ''total_households'' = None
   \<and> predict_route failing_store (BObject [(''covered_households'', JStr ''abc'')])
     = Err400 ''Invalid input data''"
  by (simp add: predict_route_def get_and_validate_def dict_get_def int_of_str_def
      c_strip_def is_c_space_def is_digit_def conversion_failed_def)

end
